theory Spec2Isabelle
  imports Main "HOL-Library.Char_ord" "HOL-Library.List_Lexorder" "HOL-Library.AList"
begin

section \<open>Python text and values\<close>

text \<open>
  The module \<^verbatim>\<open>cmk/gui/plugins/openapi/livestatus_helpers/testing.py\<close> works on Python
  \<^verbatim>\<open>str\<close> values. A \<^typ>\<open>string\<close> here is a Python \<^verbatim>\<open>str\<close> whose code points are all
  below U+0100: one \<^typ>\<open>char\<close> is one code point, \<^const>\<open>length\<close> is \<^verbatim>\<open>len\<close>, and the
  order on \<^typ>\<open>string\<close> is the lexicographic code point order Python uses for \<^verbatim>\<open>str\<close>.
  Strings with code points from U+0100 on are not values of the model. Bytes
  (\<^verbatim>\<open>bytes\<close>) are lists of \<^typ>\<open>char\<close> as well; the two readings meet only in
  \<open>utf8_encode\<close> and \<open>utf8_decode\<close>.
\<close>

type_synonym bytes = "char list"

definition NL :: char where "NL = CHR 0x0A"
definition CR :: char where "CR = CHR 0x0D"
definition SP :: char where "SP = CHR 0x20"

text \<open>The line boundaries of \<^verbatim>\<open>str.splitlines\<close> below U+0100.\<close>

definition is_linebreak :: "char \<Rightarrow> bool" where
  "is_linebreak c \<longleftrightarrow>
     c \<in> set [CHR 0x0A, CHR 0x0B, CHR 0x0C, CHR 0x0D, CHR 0x1C, CHR 0x1D, CHR 0x1E, CHR 0x85]"

text \<open>The characters \<^verbatim>\<open>str.isspace\<close> accepts below U+0100 (what \<^verbatim>\<open>split()\<close> and
  \<^verbatim>\<open>int()\<close> skip).\<close>

definition is_space :: "char \<Rightarrow> bool" where
  "is_space c \<longleftrightarrow>
     c \<in> set [CHR 0x09, CHR 0x0A, CHR 0x0B, CHR 0x0C, CHR 0x0D, CHR 0x1C, CHR 0x1D, CHR 0x1E,
              CHR 0x1F, CHR 0x20, CHR 0x85, CHR 0xA0]"

text \<open>\<^verbatim>\<open>s.startswith(p)\<close>\<close>

fun startswith :: "string \<Rightarrow> string \<Rightarrow> bool" where
  "startswith s [] = True"
| "startswith [] (p # ps) = False"
| "startswith (c # cs) (p # ps) = (c = p \<and> startswith cs ps)"

text \<open>\<^verbatim>\<open>sub in s\<close> for strings.\<close>

fun contains :: "string \<Rightarrow> string \<Rightarrow> bool" where
  "contains [] sub = (sub = [])"
| "contains (c # cs) sub = (startswith (c # cs) sub \<or> contains cs sub)"

text \<open>
  \<^verbatim>\<open>str.splitlines()\<close>: a line ends at a line boundary, \<^verbatim>\<open>\r\n\<close> counts as one
  boundary, the boundaries are dropped, and there is no empty last line.
\<close>

fun after_break :: "string \<Rightarrow> string" where
  "after_break [] = []"
| "after_break (c # cs) = (if c = CR \<and> cs \<noteq> [] \<and> hd cs = NL then tl cs else cs)"

function splitlines :: "string \<Rightarrow> string list" where
  "splitlines s =
     (if s = [] then []
      else takeWhile (\<lambda>c. \<not> is_linebreak c) s
           # splitlines (after_break (dropWhile (\<lambda>c. \<not> is_linebreak c) s)))"
  by pat_completeness auto

lemma length_after_break: "length (after_break r) \<le> length r"
  by (cases r) auto

lemma after_break_dropWhile_less:
  assumes "s \<noteq> []"
  shows "length (after_break (dropWhile P s)) < length s"
proof (cases "dropWhile P s")
  case Nil
  then have "length (after_break (dropWhile P s)) = 0" by (simp only: after_break.simps list.size)
  with assms show ?thesis by simp
next
  case (Cons c cs)
  have "length (after_break (c # cs)) \<le> length cs" by auto
  moreover have "length (dropWhile P s) \<le> length s" by (rule length_dropWhile_le)
  ultimately show ?thesis using Cons by simp
qed

termination splitlines
  by (relation "measure length") (auto simp: after_break_dropWhile_less)

declare splitlines.simps [simp del]

text \<open>\<^verbatim>\<open>s.split(sep, 1)\<close> for a non-empty separator: \<open>None\<close> when \<open>sep\<close> does not occur
  (Python returns the one-element list \<^verbatim>\<open>[s]\<close>), else the text before and after the first
  occurrence.\<close>

fun split_once :: "string \<Rightarrow> string \<Rightarrow> (string \<times> string) option" where
  "split_once sep [] = None"
| "split_once sep (c # cs) =
     (if startswith (c # cs) sep then Some ([], drop (length sep) (c # cs))
      else (case split_once sep cs of None \<Rightarrow> None | Some (k, v) \<Rightarrow> Some (c # k, v)))"

text \<open>\<^verbatim>\<open>s.lstrip(" ")\<close> and \<^verbatim>\<open>s.rstrip("\n")\<close>\<close>

definition lstrip_sp :: "string \<Rightarrow> string" where
  "lstrip_sp s = dropWhile (\<lambda>c. c = SP) s"

definition rstrip_nl :: "string \<Rightarrow> string" where
  "rstrip_nl s = rev (dropWhile (\<lambda>c. c = NL) (rev s))"

section \<open>Exceptions\<close>

text \<open>
  Every \<^verbatim>\<open>raise\<close> of the module and every exception of a builtin it calls is a value.
  The string is the message of a \<^verbatim>\<open>raise\<close> statement of the module; exceptions raised by
  the interpreter itself (a failed unpacking, \<^verbatim>\<open>int()\<close>, a missing dictionary key) carry a
  short tag instead of CPython's message. \<open>Unmodelled\<close> is no exception of the program: it
  marks an input on which the program goes on with a value the model does not have (text
  with code points from U+0100 on).
\<close>

datatype error =
    RuntimeError string
  | KeyError string
  | ValueError string
  | LookupError string
  | IndexError string
  | TypeError string
  | ReError string
  | UnicodeDecodeError string
  | Unmodelled string

section \<open>Header unpacking\<close>

text \<open>
  \<^verbatim>\<open>_unpack_headers\<close>. The dictionary is an association list in insertion order, updated
  with \<^const>\<open>AList.update\<close> (an existing key keeps its place, a new key goes last, as in a
  Python \<^verbatim>\<open>dict\<close>). The tuple assignment \<^verbatim>\<open>key, value = header.split(": ", 1)\<close> raises
  \<^verbatim>\<open>ValueError\<close> when the split yields one element.
\<close>

type_synonym headers = "(string \<times> string) list"

fun unpack_loop :: "headers \<Rightarrow> string list \<Rightarrow> error + headers" where
  "unpack_loop unpacked [] = Inr unpacked"
| "unpack_loop unpacked (header # rest) =
     (if startswith header ''GET '' then unpack_loop unpacked rest
      else if CHR '':'' \<notin> set header then unpack_loop unpacked rest
      else if header = [] then unpack_loop unpacked rest
      else (case split_once '': '' header of
              None \<Rightarrow> Inl (ValueError ''not enough values to unpack'')
            | Some (key, val) \<Rightarrow> unpack_loop (AList.update key (lstrip_sp val) unpacked) rest))"

definition unpack_headers :: "string \<Rightarrow> error + headers" where
  "unpack_headers query = unpack_loop [] (splitlines query)"


section \<open>Whitespace splitting and number parsing\<close>

text \<open>\<^verbatim>\<open>s.split()\<close>: the maximal runs of non-whitespace characters.\<close>

function split_ws :: "string \<Rightarrow> string list" where
  "split_ws s =
     (if dropWhile is_space s = [] then []
      else takeWhile (\<lambda>c. \<not> is_space c) (dropWhile is_space s)
           # split_ws (dropWhile (\<lambda>c. \<not> is_space c) (dropWhile is_space s)))"
  by pat_completeness auto

lemma dropWhile_twice_less:
  assumes "dropWhile P s \<noteq> []"
  shows "length (dropWhile (\<lambda>c. \<not> P c) (dropWhile P s)) < length s"
proof -
  obtain c cs where eq: "dropWhile P s = c # cs"
    using assms by (cases "dropWhile P s") auto
  then have "\<not> P c" using hd_dropWhile [of P s] by auto
  then have "dropWhile (\<lambda>c. \<not> P c) (c # cs) = dropWhile (\<lambda>c. \<not> P c) cs" by simp
  then have "length (dropWhile (\<lambda>c. \<not> P c) (dropWhile P s)) \<le> length cs"
    using eq length_dropWhile_le [of "\<lambda>c. \<not> P c" cs] by simp
  moreover have "length (c # cs) \<le> length s"
    using eq length_dropWhile_le [of P s] by simp
  ultimately show ?thesis by simp
qed

termination split_ws
  by (relation "measure length") (auto simp: dropWhile_twice_less)

declare split_ws.simps [simp del]

text \<open>
  \<^verbatim>\<open>s.split(None, maxsplit)\<close>: at most \<open>maxsplit\<close> leading tokens, then what is left of the
  string from its next non-whitespace character to its end (trailing whitespace kept) as
  the last element, when anything is left.
\<close>

fun split_ws_max :: "nat \<Rightarrow> string \<Rightarrow> string list" where
  "split_ws_max 0 s =
     (if dropWhile is_space s = [] then [] else [dropWhile is_space s])"
| "split_ws_max (Suc n) s =
     (if dropWhile is_space s = [] then []
      else takeWhile (\<lambda>c. \<not> is_space c) (dropWhile is_space s)
           # split_ws_max n (dropWhile (\<lambda>c. \<not> is_space c) (dropWhile is_space s)))"

text \<open>\<^verbatim>\<open>sep.join(xs)\<close>\<close>

fun join :: "string \<Rightarrow> string list \<Rightarrow> string" where
  "join sep [] = []"
| "join sep [x] = x"
| "join sep (x # y # r) = x @ sep @ join sep (y # r)"

text \<open>
  \<^verbatim>\<open>int(s)\<close> on a string: surrounding whitespace is dropped, then an optional sign and
  decimal digits, where single underscores may stand between digits. The whitespace
  \<^verbatim>\<open>int\<close> drops is that of \<^verbatim>\<open>str.isspace\<close> without the separators U+001C to U+001F.
  There is no bound on the number of digits (the bound of later Python versions is not
  modelled).
\<close>

definition is_int_space :: "char \<Rightarrow> bool" where
  "is_int_space c \<longleftrightarrow>
     c \<in> set [CHR 0x09, CHR 0x0A, CHR 0x0B, CHR 0x0C, CHR 0x0D, CHR 0x20, CHR 0x85, CHR 0xA0]"

definition strip_ws :: "string \<Rightarrow> string" where
  "strip_ws s = rev (dropWhile is_int_space (rev (dropWhile is_int_space s)))"

definition is_digit :: "char \<Rightarrow> bool" where
  "is_digit c \<longleftrightarrow> c \<in> set ''0123456789''"

definition digit_val :: "char \<Rightarrow> nat" where
  "digit_val c = of_char c - 48"

fun digits_ok :: "string \<Rightarrow> bool" where
  "digits_ok [] = False"
| "digits_ok [c] = is_digit c"
| "digits_ok (c # d # r) =
     (is_digit c \<and> (if d = CHR ''_'' then digits_ok r else digits_ok (d # r)))"

definition digits_value :: "string \<Rightarrow> nat" where
  "digits_value ds = foldl (\<lambda>a c. 10 * a + digit_val c) 0 (filter (\<lambda>c. c \<noteq> CHR ''_'') ds)"

definition py_int :: "string \<Rightarrow> error + int" where
  "py_int s =
     (let t = strip_ws s;
          signed = (t \<noteq> [] \<and> (hd t = CHR ''-'' \<or> hd t = CHR ''+''));
          body = (if signed then tl t else t)
      in if digits_ok body
         then Inr (if signed \<and> hd t = CHR ''-'' then - int (digits_value body)
                   else int (digits_value body))
         else Inl (ValueError ''invalid literal for int() with base 10''))"

text \<open>\<^verbatim>\<open>str(n)\<close> for integers.\<close>

definition digit_char :: "nat \<Rightarrow> char" where
  "digit_char d = char_of (48 + d)"

function str_nat :: "nat \<Rightarrow> string" where
  "str_nat n = (if n < 10 then [digit_char n] else str_nat (n div 10) @ [digit_char (n mod 10)])"
  by pat_completeness auto

termination str_nat
  by (relation "measure id") auto

declare str_nat.simps [simp del]

definition str_int :: "int \<Rightarrow> string" where
  "str_int i = (if i < 0 then CHR ''-'' # str_nat (nat (- i)) else str_nat (nat i))"

section \<open>Floating point numbers\<close>

text \<open>
  A Python \<^verbatim>\<open>float\<close> is an IEEE double: not a number, an infinity, or a sign with
  \<open>m \<cdot> 2\<^sup>e\<close> for integers \<open>m \<ge> 0\<close> and \<open>e\<close>. \<open>Finite neg m e\<close> stands for that value;
  different pairs \<open>(m, e)\<close> may stand for the same number, and comparisons go by the number.
  Comparisons are exact, also between an integer and a float, and every comparison with
  not-a-number is false.
\<close>

datatype fval = Finite bool int int | Infinity bool | NaN

definition fval_scaled :: "int \<Rightarrow> bool \<Rightarrow> int \<Rightarrow> int \<Rightarrow> int" where
  "fval_scaled k neg m e = (if neg then - 1 else 1) * m * 2 ^ nat (e - k)"

fun fval_le :: "fval \<Rightarrow> fval \<Rightarrow> bool" where
  "fval_le NaN y = False"
| "fval_le x NaN = False"
| "fval_le (Infinity True) y = True"
| "fval_le x (Infinity False) = True"
| "fval_le (Infinity False) y = False"
| "fval_le x (Infinity True) = False"
| "fval_le (Finite s1 m1 e1) (Finite s2 m2 e2) =
     (fval_scaled (min e1 e2) s1 m1 e1 \<le> fval_scaled (min e1 e2) s2 m2 e2)"

definition fval_of_int :: "int \<Rightarrow> fval" where
  "fval_of_int i = Finite (i < 0) \<bar>i\<bar> 0"

text \<open>
  Rounding the rational \<open>p / q\<close> to the nearest double, ties to the even mantissa.
  \<open>ilog b p q\<close> is the integer \<open>k\<close> with \<open>b\<^sup>k \<le> p / q < b\<^sup>k\<^sup>+\<^sup>1\<close>. The mantissa has 53 bits
  from \<open>2\<^sup>-\<^sup>1\<^sup>0\<^sup>2\<^sup>2\<close> on and fewer below; a result of \<open>2\<^sup>1\<^sup>0\<^sup>2\<^sup>4\<close> or more is an overflow
  (\<open>None\<close>).
\<close>

function ilog_up :: "int \<Rightarrow> int \<Rightarrow> int \<Rightarrow> int" where
  "ilog_up b p q = (if 2 \<le> b \<and> 0 < q \<and> q * b \<le> p then 1 + ilog_up b p (q * b) else 0)"
  by pat_completeness auto

lemma mult_base_greater: "2 \<le> b \<Longrightarrow> 0 < q \<Longrightarrow> q < q * (b::int)"
  using mult_left_mono [of 2 b q] by simp

lemma ilog_up_measure:
  "2 \<le> b \<Longrightarrow> 0 < q \<Longrightarrow> q * b \<le> p \<Longrightarrow> nat (p - q * b) < nat (p - (q::int))"
  using mult_base_greater [of b q] by arith

lemma ilog_down_measure:
  "2 \<le> b \<Longrightarrow> 0 < p \<Longrightarrow> p < q \<Longrightarrow> nat (q - p * b) < nat (q - (p::int))"
  using mult_base_greater [of b p] by arith

termination ilog_up
proof (relation "measure (\<lambda>(b, p, q). nat (p - q))", goal_cases)
  case 1
  show ?case by simp
next
  case (2 b p q)
  then show ?case using ilog_up_measure [of b q p] by simp
qed

function ilog_down :: "int \<Rightarrow> int \<Rightarrow> int \<Rightarrow> int" where
  "ilog_down b p q = (if 2 \<le> b \<and> 0 < p \<and> p < q then 1 + ilog_down b (p * b) q else 0)"
  by pat_completeness auto

termination ilog_down
proof (relation "measure (\<lambda>(b, p, q). nat (q - p))", goal_cases)
  case 1
  show ?case by simp
next
  case (2 b p q)
  then show ?case using ilog_down_measure [of b p q] by simp
qed

declare ilog_up.simps [simp del] ilog_down.simps [simp del]

definition ilog :: "int \<Rightarrow> int \<Rightarrow> int \<Rightarrow> int" where
  "ilog b p q = (if q \<le> p then ilog_up b p q else - ilog_down b p q)"

definition rne :: "int \<Rightarrow> int \<Rightarrow> int" where
  "rne p q =
     (if 2 * (p mod q) < q then p div q
      else if q < 2 * (p mod q) then p div q + 1
      else if even (p div q) then p div q
      else p div q + 1)"

definition overflows :: "int \<Rightarrow> int \<Rightarrow> bool" where
  "overflows m e = (if 1024 \<le> e then 1 \<le> m else 2 ^ nat (1024 - e) \<le> m)"

definition round_double :: "int \<Rightarrow> int \<Rightarrow> (int \<times> int) option" where
  "round_double p q =
     (if p = 0 then Some (0, 0)
      else
        let e = max (ilog 2 p q) (- 1022) - 52;
            m = (if 0 \<le> e then rne p (q * 2 ^ nat e) else rne (p * 2 ^ nat (- e)) q)
        in if overflows m e then None else Some (m, e))"

text \<open>The double nearest to \<open>d \<cdot> 10\<^sup>k\<close>.\<close>

definition dec_round :: "int \<Rightarrow> int \<Rightarrow> (int \<times> int) option" where
  "dec_round d k =
     (if 0 \<le> k then round_double (d * 10 ^ nat k) 1 else round_double d (10 ^ nat (- k)))"

text \<open>
  \<^verbatim>\<open>float(s)\<close> on a string: surrounding whitespace is dropped, then an optional sign and
  either \<^verbatim>\<open>inf\<close>, \<^verbatim>\<open>infinity\<close> or \<^verbatim>\<open>nan\<close> in any case, or a decimal numeral with an
  optional fraction and an optional exponent, whose digit groups may have single
  underscores between digits. The numeral is rounded to the nearest double; an overflow
  gives an infinity.
\<close>

definition lower_char :: "char \<Rightarrow> char" where
  "lower_char c =
     (if (65::nat) \<le> of_char c \<and> of_char c \<le> (90::nat) then char_of (of_char c + (32::nat))
      else c)"

definition digits_int :: "string \<Rightarrow> int" where
  "digits_int ds =
     foldl (\<lambda>a c. 10 * a + int (digit_val c)) 0 (filter (\<lambda>c. c \<noteq> CHR ''_'') ds)"

definition digit_count :: "string \<Rightarrow> nat" where
  "digit_count ds = length (filter (\<lambda>c. c \<noteq> CHR ''_'') ds)"

definition unsigned :: "string \<Rightarrow> string" where
  "unsigned t = (if t \<noteq> [] \<and> (hd t = CHR ''-'' \<or> hd t = CHR ''+'') then tl t else t)"

definition py_float :: "string \<Rightarrow> error + fval" where
  "py_float s =
     (let t = strip_ws s;
          neg = (t \<noteq> [] \<and> hd t = CHR ''-'');
          body = unsigned t;
          word = map lower_char body;
          mant = takeWhile (\<lambda>c. c \<notin> set ''eE'') body;
          after_mant = dropWhile (\<lambda>c. c \<notin> set ''eE'') body;
          ip = takeWhile (\<lambda>c. c \<noteq> CHR ''.'') mant;
          after_ip = dropWhile (\<lambda>c. c \<noteq> CHR ''.'') mant;
          fp = tl after_ip;
          ex = tl after_mant
      in if word = ''inf'' \<or> word = ''infinity'' then Inr (Infinity neg)
         else if word = ''nan'' then Inr NaN
         else if \<not> ((digits_ok ip \<and> (fp = [] \<or> digits_ok fp))
                      \<or> (ip = [] \<and> after_ip \<noteq> [] \<and> digits_ok fp))
              \<or> (after_mant \<noteq> [] \<and> \<not> digits_ok (unsigned ex))
         then Inl (ValueError ''could not convert string to float'')
         else
           let e10 = (if after_mant = [] then 0
                      else if hd ex = CHR ''-'' then - digits_int (unsigned ex)
                      else digits_int (unsigned ex))
           in (case dec_round (digits_int (ip @ fp)) (e10 - int (digit_count fp)) of
                 None \<Rightarrow> Inr (Infinity neg)
               | Some (m, e) \<Rightarrow> Inr (Finite neg m e)))"

text \<open>
  \<^verbatim>\<open>repr\<close> of a float: the shortest decimal numeral that \<^verbatim>\<open>float\<close> reads back as the same
  number, and among the shortest the nearest. \<open>shortest_at m e t n\<close> looks for one with
  \<open>n\<close> digits for the number \<open>m \<cdot> 2\<^sup>e\<close> whose leading digit stands at \<open>10\<^sup>t\<close>: the two
  \<open>n\<close>-digit numerals around the number are tried. Seventeen digits always suffice for a
  double. The numeral is written without exponent when the decimal point falls within
  sixteen digits and not more than four places before the first digit, and as
  \<^verbatim>\<open>d.ddde+XX\<close> otherwise.
\<close>

definition same_number :: "int \<Rightarrow> int \<Rightarrow> int \<Rightarrow> int \<Rightarrow> bool" where
  "same_number m1 e1 m2 e2 \<longleftrightarrow>
     m1 * 2 ^ nat (e1 - min e1 e2) = m2 * 2 ^ nat (e2 - min e1 e2)"

definition reads_back :: "int \<Rightarrow> int \<Rightarrow> int \<Rightarrow> int \<Rightarrow> bool" where
  "reads_back m e d k =
     (case dec_round d k of None \<Rightarrow> False | Some (m1, e1) \<Rightarrow> same_number m1 e1 m e)"

text \<open>The number \<open>m \<cdot> 2\<^sup>e / 10\<^sup>k\<close> as a fraction.\<close>

definition scaled_num :: "int \<Rightarrow> int \<Rightarrow> int \<Rightarrow> int" where
  "scaled_num m e k =
     (if 0 \<le> e then m * 2 ^ nat e else m) * (if 0 \<le> k then 1 else 10 ^ nat (- k))"

definition scaled_den :: "int \<Rightarrow> int \<Rightarrow> int" where
  "scaled_den e k =
     (if 0 \<le> e then 1 else 2 ^ nat (- e)) * (if 0 \<le> k then 10 ^ nat k else 1)"

definition shortest_at :: "int \<Rightarrow> int \<Rightarrow> int \<Rightarrow> int \<Rightarrow> (int \<times> int) option" where
  "shortest_at m e t n =
     (let k = t - n + 1;
          lo = scaled_num m e k div scaled_den e k
      in if reads_back m e lo k \<and> reads_back m e (lo + 1) k
         then Some (rne (scaled_num m e k) (scaled_den e k), k)
         else if reads_back m e lo k then Some (lo, k)
         else if reads_back m e (lo + 1) k then Some (lo + 1, k)
         else None)"

fun shortest_from :: "int \<Rightarrow> int \<Rightarrow> int \<Rightarrow> int list \<Rightarrow> int \<times> int" where
  "shortest_from m e t [] = (rne (scaled_num m e (t - 16)) (scaled_den e (t - 16)), t - 16)"
| "shortest_from m e t (n # ns) =
     (case shortest_at m e t n of Some r \<Rightarrow> r | None \<Rightarrow> shortest_from m e t ns)"

definition shortest_decimal :: "int \<Rightarrow> int \<Rightarrow> int \<times> int" where
  "shortest_decimal m e =
     shortest_from m e (ilog 10 (scaled_num m e 0) (scaled_den e 0))
       [1, 2, 3, 4, 5, 6, 7, 8, 9, 10, 11, 12, 13, 14, 15, 16, 17]"

function digits_of :: "int \<Rightarrow> string" where
  "digits_of n =
     (if n < 10 then [digit_char (nat n)] else digits_of (n div 10) @ [digit_char (nat (n mod 10))])"
  by pat_completeness auto

termination digits_of
  by (relation "measure nat") auto

declare digits_of.simps [simp del]

definition rstrip_zeros :: "string \<Rightarrow> string" where
  "rstrip_zeros ds = rev (dropWhile (\<lambda>c. c = CHR ''0'') (rev ds))"

definition format_decimal :: "string \<Rightarrow> int \<Rightarrow> string" where
  "format_decimal ds decpt =
     (if - 4 < decpt \<and> decpt \<le> 16 then
        (if decpt \<le> 0 then ''0.'' @ replicate (nat (- decpt)) CHR ''0'' @ ds
         else if int (length ds) \<le> decpt
         then ds @ replicate (nat decpt - length ds) CHR ''0'' @ ''.0''
         else take (nat decpt) ds @ ''.'' @ drop (nat decpt) ds)
      else
        [hd ds] @ (if tl ds = [] then [] else ''.'' @ tl ds) @ ''e''
        @ (if decpt - 1 < 0 then ''-'' else ''+'')
        @ (if \<bar>decpt - 1\<bar> < 10 then ''0'' else []) @ digits_of \<bar>decpt - 1\<bar>)"

definition repr_float :: "fval \<Rightarrow> string" where
  "repr_float x =
     (case x of
        NaN \<Rightarrow> ''nan''
      | Infinity neg \<Rightarrow> (if neg then ''-inf'' else ''inf'')
      | Finite neg m e \<Rightarrow>
          (if neg then ''-'' else [])
          @ (if m = 0 then ''0.0''
             else
               let (d, k) = shortest_decimal m e
               in format_decimal (rstrip_zeros (digits_of d)) (int (length (digits_of d)) + k)))"

section \<open>Values\<close>

text \<open>
  A fixture value (\<^verbatim>\<open>Any\<close> in the source) is an integer, a float, a string or a list of
  values: the types of the values in the built-in tables. A row
  (\<^verbatim>\<open>Dict[str, Any]\<close>) is an association list in insertion order; a Python dictionary has
  each key once, which is \<open>distinct (map fst row)\<close>.
\<close>

datatype pyval = PInt int | PFloat fval | PStr string | PList "pyval list"

type_synonym row = "(string \<times> pyval) list"
type_synonym response = "pyval list list"

section \<open>The textual form of values\<close>

text \<open>
  \<^verbatim>\<open>repr\<close> of a string: single quotes, unless the string has a single quote and no double
  quote; the quote and the backslash are escaped, tab, newline and carriage return are
  written \<^verbatim>\<open>\t\<close>, \<^verbatim>\<open>\n\<close>, \<^verbatim>\<open>\r\<close>, other non-printable characters as \<^verbatim>\<open>\xNN\<close>,
  everything printable as itself. Below U+0100 the non-printable characters are the
  controls (U+0000 to U+001F, U+007F to U+009F), the no-break space U+00A0 and the soft
  hyphen U+00AD.
\<close>

definition BSL :: char where "BSL = CHR 0x5C"
definition SQ :: char where "SQ = CHR 0x27"
definition DQ :: char where "DQ = CHR 0x22"

definition is_printable :: "char \<Rightarrow> bool" where
  "is_printable c \<longleftrightarrow>
     (let n = (of_char c :: nat) in (32 \<le> n \<and> n < 127) \<or> (161 \<le> n \<and> n \<noteq> 173))"

definition hex_digit :: "nat \<Rightarrow> char" where
  "hex_digit d = ''0123456789abcdef'' ! d"

definition repr_char :: "char \<Rightarrow> char \<Rightarrow> string" where
  "repr_char quote c =
     (if c = quote \<or> c = BSL then [BSL, c]
      else if c = CHR 0x09 then [BSL, CHR ''t'']
      else if c = CHR 0x0A then [BSL, CHR ''n'']
      else if c = CHR 0x0D then [BSL, CHR ''r'']
      else if is_printable c then [c]
      else [BSL, CHR ''x'', hex_digit (of_char c div 16), hex_digit (of_char c mod 16)])"

definition repr_str :: "string \<Rightarrow> string" where
  "repr_str s =
     (let quote = (if SQ \<in> set s \<and> DQ \<notin> set s then DQ else SQ)
      in quote # concat (map (repr_char quote) s) @ [quote])"

fun repr :: "pyval \<Rightarrow> string" where
  "repr (PInt i) = str_int i"
| "repr (PFloat x) = repr_float x"
| "repr (PStr s) = repr_str s"
| "repr (PList xs) = ''['' @ join '', '' (map repr xs) @ '']''"

text \<open>
  \<^verbatim>\<open>s.encode('utf-8')\<close>: one byte below U+0080, two bytes from there to U+00FF.
\<close>

definition utf8_char :: "char \<Rightarrow> bytes" where
  "utf8_char c =
     (let n = (of_char c :: nat)
      in if n < 128 then [c] else [char_of (192 + n div 64), char_of (128 + n mod 64)])"

definition utf8_encode :: "string \<Rightarrow> bytes" where
  "utf8_encode s = concat (map utf8_char s)"

text \<open>
  \<^verbatim>\<open>b.decode('utf-8')\<close>. \<open>utf8_seq\<close> reads the first byte sequence: its length and its code
  point, or \<open>None\<close> where Python raises \<^verbatim>\<open>UnicodeDecodeError\<close> (a stray continuation byte,
  a truncated sequence, an overlong form, a surrogate, a code point above U+10FFFF).
  \<open>utf8_points\<close> reads all of them. Well-formed input with a code point from U+0100 on
  decodes in Python to a string the model does not have: that is \<open>Unmodelled\<close>, not an
  exception.
\<close>

definition is_cont :: "char \<Rightarrow> bool" where
  "is_cont c \<longleftrightarrow> (128::nat) \<le> of_char c \<and> of_char c < (192::nat)"

definition cont_bits :: "char \<Rightarrow> nat" where
  "cont_bits c = of_char c - 128"

fun utf8_seq :: "bytes \<Rightarrow> (nat \<times> nat) option" where
  "utf8_seq [] = None"
| "utf8_seq (b # bs) =
     (let n = (of_char b :: nat)
      in if n < 128 then Some (1, n)
         else if 194 \<le> n \<and> n < 224 then
           (case bs of
              c1 # _ \<Rightarrow> if is_cont c1 then Some (2, (n - 192) * 64 + cont_bits c1) else None
            | _ \<Rightarrow> None)
         else if 224 \<le> n \<and> n < 240 then
           (case bs of
              c1 # c2 # _ \<Rightarrow>
                if (if n = 224 then 160 else 128) \<le> (of_char c1 :: nat)
                   \<and> (of_char c1 :: nat) \<le> (if n = 237 then 159 else 191)
                   \<and> is_cont c2
                then Some (3, (n - 224) * 4096 + cont_bits c1 * 64 + cont_bits c2)
                else None
            | _ \<Rightarrow> None)
         else if 240 \<le> n \<and> n < 245 then
           (case bs of
              c1 # c2 # c3 # _ \<Rightarrow>
                if (if n = 240 then 144 else 128) \<le> (of_char c1 :: nat)
                   \<and> (of_char c1 :: nat) \<le> (if n = 244 then 143 else 191)
                   \<and> is_cont c2 \<and> is_cont c3
                then Some (4, (n - 240) * 262144 + cont_bits c1 * 4096 + cont_bits c2 * 64
                              + cont_bits c3)
                else None
            | _ \<Rightarrow> None)
         else None)"

fun utf8_points :: "bytes \<Rightarrow> nat list option" where
  "utf8_points [] = Some []"
| "utf8_points (b # bs) =
     (case utf8_seq (b # bs) of
        None \<Rightarrow> None
      | Some (k, cp) \<Rightarrow> map_option (Cons cp) (utf8_points (drop (k - 1) bs)))"

definition utf8_decode :: "bytes \<Rightarrow> error + string" where
  "utf8_decode bs =
     (case utf8_points bs of
        None \<Rightarrow> Inl (UnicodeDecodeError ''utf-8'')
      | Some cps \<Rightarrow>
          if list_all (\<lambda>cp. cp < 256) cps then Inr (map char_of cps)
          else Inl (Unmodelled ''code point from U+0100 on''))"

section \<open>Operators and the filter compiler\<close>

text \<open>
  The functions of \<^verbatim>\<open>operator\<close> on values. \<^verbatim>\<open>==\<close> never raises; numbers are equal by
  value (\<^verbatim>\<open>1 == 1.0\<close>), not-a-number equals nothing, and values of different kinds are
  unequal. An ordering comparison is defined between two numbers, two strings and two
  lists; lists compare as Python does: at the first position where the elements are not
  equal the two elements decide (which may raise \<^verbatim>\<open>TypeError\<close>), and without such a
  position the lengths decide. The operands here never share an object (the right one is
  built by the cast below), so the identity shortcut of Python's list comparison plays no
  part.
\<close>

datatype cmp = Eq | Gt | Lt | Le | Ge

definition cmp_ord :: "cmp \<Rightarrow> ('a::linorder) \<Rightarrow> 'a \<Rightarrow> bool" where
  "cmp_ord c x y = (case c of Eq \<Rightarrow> x = y | Gt \<Rightarrow> x > y | Lt \<Rightarrow> x < y | Le \<Rightarrow> x \<le> y | Ge \<Rightarrow> x \<ge> y)"

definition float_cmp :: "cmp \<Rightarrow> fval \<Rightarrow> fval \<Rightarrow> bool" where
  "float_cmp c x y =
     (case c of
        Eq \<Rightarrow> fval_le x y \<and> fval_le y x
      | Gt \<Rightarrow> fval_le y x \<and> \<not> fval_le x y
      | Lt \<Rightarrow> fval_le x y \<and> \<not> fval_le y x
      | Le \<Rightarrow> fval_le x y
      | Ge \<Rightarrow> fval_le y x)"

fun py_eq :: "pyval \<Rightarrow> pyval \<Rightarrow> bool"
  and list_eq :: "pyval list \<Rightarrow> pyval list \<Rightarrow> bool" where
  "py_eq (PInt x) (PInt y) = (x = y)"
| "py_eq (PInt x) (PFloat y) = float_cmp Eq (fval_of_int x) y"
| "py_eq (PFloat x) (PInt y) = float_cmp Eq x (fval_of_int y)"
| "py_eq (PFloat x) (PFloat y) = float_cmp Eq x y"
| "py_eq (PStr x) (PStr y) = (x = y)"
| "py_eq (PList xs) (PList ys) = list_eq xs ys"
| "py_eq (PInt x) (PStr y) = False"
| "py_eq (PInt x) (PList y) = False"
| "py_eq (PFloat x) (PStr y) = False"
| "py_eq (PFloat x) (PList y) = False"
| "py_eq (PStr x) (PInt y) = False"
| "py_eq (PStr x) (PFloat y) = False"
| "py_eq (PStr x) (PList y) = False"
| "py_eq (PList x) (PInt y) = False"
| "py_eq (PList x) (PFloat y) = False"
| "py_eq (PList x) (PStr y) = False"
| "list_eq [] [] = True"
| "list_eq (x # xs) (y # ys) = (py_eq x y \<and> list_eq xs ys)"
| "list_eq [] (y # ys) = False"
| "list_eq (x # xs) [] = False"

fun py_order :: "cmp \<Rightarrow> pyval \<Rightarrow> pyval \<Rightarrow> error + bool"
  and list_order :: "cmp \<Rightarrow> pyval list \<Rightarrow> pyval list \<Rightarrow> error + bool" where
  "py_order c (PInt x) (PInt y) = Inr (cmp_ord c x y)"
| "py_order c (PInt x) (PFloat y) = Inr (float_cmp c (fval_of_int x) y)"
| "py_order c (PFloat x) (PInt y) = Inr (float_cmp c x (fval_of_int y))"
| "py_order c (PFloat x) (PFloat y) = Inr (float_cmp c x y)"
| "py_order c (PStr x) (PStr y) = Inr (cmp_ord c x y)"
| "py_order c (PList xs) (PList ys) = list_order c xs ys"
| "py_order c (PInt x) (PStr y) = Inl (TypeError ''not supported between int and str'')"
| "py_order c (PInt x) (PList y) = Inl (TypeError ''not supported between int and list'')"
| "py_order c (PFloat x) (PStr y) = Inl (TypeError ''not supported between float and str'')"
| "py_order c (PFloat x) (PList y) = Inl (TypeError ''not supported between float and list'')"
| "py_order c (PStr x) (PInt y) = Inl (TypeError ''not supported between str and int'')"
| "py_order c (PStr x) (PFloat y) = Inl (TypeError ''not supported between str and float'')"
| "py_order c (PStr x) (PList y) = Inl (TypeError ''not supported between str and list'')"
| "py_order c (PList x) (PInt y) = Inl (TypeError ''not supported between list and int'')"
| "py_order c (PList x) (PFloat y) = Inl (TypeError ''not supported between list and float'')"
| "py_order c (PList x) (PStr y) = Inl (TypeError ''not supported between list and str'')"
| "list_order c (x # xs) (y # ys) = (if py_eq x y then list_order c xs ys else py_order c x y)"
| "list_order c [] ys = Inr (cmp_ord c (0::nat) (length ys))"
| "list_order c (x # xs) [] = Inr (cmp_ord c (length (x # xs)) (0::nat))"

definition operator_eq :: "pyval \<Rightarrow> pyval \<Rightarrow> error + bool" where
  "operator_eq a b = Inr (py_eq a b)"

definition operator_gt :: "pyval \<Rightarrow> pyval \<Rightarrow> error + bool" where
  "operator_gt a b = py_order Gt a b"

definition operator_lt :: "pyval \<Rightarrow> pyval \<Rightarrow> error + bool" where
  "operator_lt a b = py_order Lt a b"

definition operator_le :: "pyval \<Rightarrow> pyval \<Rightarrow> error + bool" where
  "operator_le a b = py_order Le a b"

definition operator_ge :: "pyval \<Rightarrow> pyval \<Rightarrow> error + bool" where
  "operator_ge a b = py_order Ge a b"

text \<open>
  \<^verbatim>\<open>type(a)(b)\<close> for a string \<open>b\<close>: \<^verbatim>\<open>int(b)\<close>, \<^verbatim>\<open>float(b)\<close>, \<^verbatim>\<open>str(b)\<close> or \<^verbatim>\<open>list(b)\<close> (the
  list of the one-character strings of \<open>b\<close>). Row values of other types (\<^verbatim>\<open>bool\<close>,
  \<^verbatim>\<open>None\<close>, dictionaries) do not occur in the tables of the module and are not values of
  the model.
\<close>

fun cast_to_type_of :: "pyval \<Rightarrow> string \<Rightarrow> error + pyval" where
  "cast_to_type_of (PInt x) b = (case py_int b of Inl e \<Rightarrow> Inl e | Inr i \<Rightarrow> Inr (PInt i))"
| "cast_to_type_of (PFloat x) b =
     (case py_float b of Inl e \<Rightarrow> Inl e | Inr f \<Rightarrow> Inr (PFloat f))"
| "cast_to_type_of (PStr x) b = Inr (PStr b)"
| "cast_to_type_of (PList x) b = Inr (PList (map (\<lambda>c. PStr [c]) b))"

text \<open>\<^verbatim>\<open>cast_down\<close>: the second argument is cast to the type of the first, then \<open>op\<close>
  compares.\<close>

type_synonym operator_func = "pyval \<Rightarrow> string \<Rightarrow> error + bool"

definition cast_down :: "(pyval \<Rightarrow> pyval \<Rightarrow> error + bool) \<Rightarrow> operator_func" where
  "cast_down op a b = (case cast_to_type_of a b of Inl e \<Rightarrow> Inl e | Inr t_b \<Rightarrow> op a t_b)"

text \<open>
  The regular expression engine (\<^verbatim>\<open>re\<close>) is a library outside the module and a parameter
  here: \<open>rm pattern string\<close> is \<^verbatim>\<open>bool(re.match(pattern, string))\<close>, or the error
  \<^verbatim>\<open>re.match\<close> raises for a malformed pattern.
\<close>

type_synonym re_match = "string \<Rightarrow> string \<Rightarrow> error + bool"

definition match_regexp :: "re_match \<Rightarrow> operator_func" where
  "match_regexp rm subject regexp =
     (case subject of
        PStr s \<Rightarrow> rm regexp s
      | _ \<Rightarrow> Inl (TypeError ''expected string or bytes-like object''))"

definition OPERATORS :: "re_match \<Rightarrow> (string \<times> operator_func) list" where
  "OPERATORS rm =
     [(''='', cast_down operator_eq),
      (''>'', cast_down operator_gt),
      (''<'', cast_down operator_lt),
      (''>='', cast_down operator_le),
      (''<='', cast_down operator_ge),
      (''~'', match_regexp rm)]"

text \<open>
  \<^verbatim>\<open>make_filter_func\<close>. The starred assignment
  \<^verbatim>\<open>field, op, *value = line[7:].split(None, 2)\<close> raises \<^verbatim>\<open>ValueError\<close> on fewer than two
  tokens; \<open>value\<close> then has no or one element. The returned closure \<^verbatim>\<open>_apply_op\<close> reads
  \<^verbatim>\<open>entry[field]\<close>, which raises \<^verbatim>\<open>KeyError\<close> when the row has no such column.
\<close>

type_synonym filter_func = "row \<Rightarrow> error + bool"

definition make_filter_func :: "re_match \<Rightarrow> string \<Rightarrow> error + filter_func" where
  "make_filter_func rm line =
     (case split_ws_max 2 (drop 7 line) of
        field # op # val \<Rightarrow>
          (case map_of (OPERATORS rm) op of
             None \<Rightarrow> Inl (ValueError (''Operator '' @ repr_str op
                                      @ '' not implemented. Please check docs or implement.''))
           | Some f \<Rightarrow>
               Inr (\<lambda>entry. case map_of entry field of
                              None \<Rightarrow> Inl (KeyError field)
                            | Some a \<Rightarrow> f a (if val = [] then [] else hd val)))
      | _ \<Rightarrow> Inl (ValueError ''not enough values to unpack''))"

text \<open>\<^verbatim>\<open>and_\<close> and \<^verbatim>\<open>or_\<close> (here \<open>and_combinator\<close>, \<open>or_combinator\<close>): the list comprehension calls every filter, in order, before
  \<^verbatim>\<open>all\<close> or \<^verbatim>\<open>any\<close> looks at the results.\<close>

fun call_each :: "filter_func list \<Rightarrow> row \<Rightarrow> error + bool list" where
  "call_each [] entry = Inr []"
| "call_each (filt # filters) entry =
     (case filt entry of
        Inl e \<Rightarrow> Inl e
      | Inr b \<Rightarrow> (case call_each filters entry of Inl e \<Rightarrow> Inl e | Inr bs \<Rightarrow> Inr (b # bs)))"

definition and_combinator :: "filter_func list \<Rightarrow> filter_func" where
  "and_combinator filters = (\<lambda>entry. case call_each filters entry of
                              Inl e \<Rightarrow> Inl e | Inr bs \<Rightarrow> Inr (list_all (\<lambda>b. b) bs))"

definition or_combinator :: "filter_func list \<Rightarrow> filter_func" where
  "or_combinator filters = (\<lambda>entry. case call_each filters entry of
                             Inl e \<Rightarrow> Inl e | Inr bs \<Rightarrow> Inr (list_ex (\<lambda>b. b) bs))"

definition COMBINATORS :: "(string \<times> (filter_func list \<Rightarrow> filter_func)) list" where
  "COMBINATORS = [(''And:'', and_combinator), (''Or:'', or_combinator)]"

section \<open>The filter evaluator\<close>

text \<open>
  The slices \<^verbatim>\<open>filters[:-count]\<close> and \<^verbatim>\<open>filters[-count:]\<close> cut the list at the same
  index: \<open>len - count\<close> (not below 0) for a positive \<open>count\<close>, and \<open>- count\<close> (not above
  \<open>len\<close>) otherwise, so that \<open>count = 0\<close> cuts at 0.
\<close>

definition cut_index :: "int \<Rightarrow> nat \<Rightarrow> nat" where
  "cut_index count n = (if count > 0 then nat (int n - count) else min (nat (- count)) n)"

text \<open>The \<^verbatim>\<open>for\<close> loop of \<^verbatim>\<open>evaluate_filter\<close> over the lines of the query, with the
  working list \<open>filters\<close>.\<close>

fun filters_loop :: "re_match \<Rightarrow> filter_func list \<Rightarrow> string list \<Rightarrow> error + filter_func list" where
  "filters_loop rm filters [] = Inr filters"
| "filters_loop rm filters (line # rest) =
     (if startswith line ''Filter:'' then
        (case make_filter_func rm line of
           Inl e \<Rightarrow> Inl e
         | Inr f \<Rightarrow> filters_loop rm (filters @ [f]) rest)
      else if startswith line ''And:'' \<or> startswith line ''Or:'' then
        (case split_once '' '' line of
           None \<Rightarrow> Inl (ValueError ''not enough values to unpack'')
         | Some (op, count_str) \<Rightarrow>
             (case py_int count_str of
                Inl e \<Rightarrow> Inl e
              | Inr count \<Rightarrow>
                  (case map_of COMBINATORS op of
                     None \<Rightarrow> Inl (KeyError op)
                   | Some combinator \<Rightarrow>
                       filters_loop rm
                         (take (cut_index count (length filters)) filters
                          @ [combinator (drop (cut_index count (length filters)) filters)])
                         rest)))
      else filters_loop rm filters rest)"

text \<open>The comprehension \<^verbatim>\<open>[entry for entry in result if filters[0](entry)]\<close>.\<close>

fun select_rows :: "filter_func \<Rightarrow> row list \<Rightarrow> error + row list" where
  "select_rows f [] = Inr []"
| "select_rows f (entry # rest) =
     (case f entry of
        Inl e \<Rightarrow> Inl e
      | Inr b \<Rightarrow> (case select_rows f rest of
                    Inl e \<Rightarrow> Inl e
                  | Inr rs \<Rightarrow> Inr (if b then entry # rs else rs)))"

definition evaluate_filter :: "re_match \<Rightarrow> string \<Rightarrow> row list \<Rightarrow> error + row list" where
  "evaluate_filter rm query result =
     (case filters_loop rm [] (splitlines query) of
        Inl e \<Rightarrow> Inl e
      | Inr filters \<Rightarrow>
          if filters = [] then Inr result
          else if length filters > 1
          then Inl (ValueError (''Got '' @ str_nat (length filters)
                                @ '' filters, expected one. Forgot And/Or?''))
          else select_rows (hd filters) result)"


section \<open>The query introspector\<close>

text \<open>\<^verbatim>\<open>_column_of_query\<close>: the tokens after \<^verbatim>\<open>Columns:\<close> on the first such line.\<close>

fun column_of_lines :: "string list \<Rightarrow> string list option" where
  "column_of_lines [] = None"
| "column_of_lines (line # rest) =
     (if startswith line ''Columns:'' then Some (split_ws (drop 8 line))
      else column_of_lines rest)"

definition column_of_query :: "string \<Rightarrow> string list option" where
  "column_of_query query = column_of_lines (splitlines query)"

text \<open>\<^verbatim>\<open>_table_of_query\<close>: \<^verbatim>\<open>lines[0].split(None, 1)[1]\<close> raises \<^verbatim>\<open>IndexError\<close> when
  nothing but whitespace follows \<^verbatim>\<open>GET\<close>.\<close>

definition table_of_query :: "string \<Rightarrow> error + string option" where
  "table_of_query query =
     (case splitlines query of
        [] \<Rightarrow> Inr None
      | first # _ \<Rightarrow>
          if startswith first ''GET '' then
            (case split_ws_max 1 first of
               _ # t # _ \<Rightarrow> Inr (Some t)
             | _ \<Rightarrow> Inl (IndexError ''list index out of range''))
          else Inr None)"

section \<open>The wire frame\<close>

text \<open>The format specifications \<^verbatim>\<open><3\<close> and \<^verbatim>\<open>>11\<close>: padding with spaces up to a minimal
  width.\<close>

definition ljust :: "nat \<Rightarrow> string \<Rightarrow> string" where
  "ljust w s = s @ replicate (w - length s) SP"

definition rjust :: "nat \<Rightarrow> string \<Rightarrow> string" where
  "rjust w s = replicate (w - length s) SP @ s"

text \<open>\<^verbatim>\<open>_make_livestatus_response\<close>: a response is a list of rows, each a list of
  values.\<close>

definition make_livestatus_response :: "response \<Rightarrow> string" where
  "make_livestatus_response response =
     (let data = repr (PList (map PList response));
          code = (200::nat);
          len = length data
      in ljust 3 (str_nat code) @ '' '' @ rjust 11 (str_nat len) @ [NL] @ data)"

section \<open>The mock connection\<close>

text \<open>
  An expectation is the tuple \<^verbatim>\<open>(query, columns, result, match_type)\<close>. The state of a
  \<^verbatim>\<open>MockLiveStatusConnection\<close> is a record of its attributes; \<^verbatim>\<open>_last_response\<close>, an
  \<^verbatim>\<open>io.StringIO\<close>, is its text and its read position. \<^verbatim>\<open>_tables\<close> is a dictionary of
  tables. A method that mutates the object returns the new state.
\<close>

type_synonym expectation = "string \<times> string list \<times> response \<times> string"

record conn =
  prepend_site :: bool
  expected_queries :: "expectation list"
  num_queries :: nat
  query_index :: nat
  report_multiple :: bool
  expect_status_query :: "bool option"
  last_response :: "(string \<times> nat) option"
  tables :: "(string \<times> row list) list"

text \<open>
  \<^verbatim>\<open>__init__\<close>. The date string and the start time come from the clock and are
  parameters. The float literals \<^verbatim>\<open>0.00151953\<close> and \<^verbatim>\<open>0.0846039\<close> of the \<^verbatim>\<open>status\<close> row are
  the doubles \<open>7007595255580969 \<cdot> 2\<^sup>-\<^sup>6\<^sup>2\<close> and \<open>6096353480225451 \<cdot> 2\<^sup>-\<^sup>5\<^sup>6\<close>.
\<close>

definition float_0_00151953 :: fval where
  "float_0_00151953 = Finite False 7007595255580969 (- 62)"

definition float_0_0846039 :: fval where
  "float_0_0846039 = Finite False 6096353480225451 (- 56)"

definition default_tables :: "string \<Rightarrow> int \<Rightarrow> (string \<times> row list) list" where
  "default_tables today program_start_timestamp =
     [(''status'',
         [[(''livestatus_version'', PStr today),
           (''program_version'', PStr (''Check_MK '' @ today)),
           (''program_start'', PInt program_start_timestamp),
           (''num_hosts'', PInt 1),
           (''num_services'', PInt 36),
           (''helper_usage_cmk'', PFloat float_0_00151953),
           (''helper_usage_fetcher'', PFloat float_0_00151953),
           (''helper_usage_checker'', PFloat float_0_00151953),
           (''helper_usage_generic'', PFloat float_0_00151953),
           (''average_latency_cmk'', PFloat float_0_0846039),
           (''average_latency_fetcher'', PFloat float_0_0846039),
           (''average_latency_generic'', PFloat float_0_0846039)]]),
      (''downtimes'',
         [[(''id'', PInt 54),
           (''host_name'', PStr ''heute''),
           (''service_description'', PStr ''CPU load''),
           (''is_service'', PInt 1),
           (''author'', PStr ''cmkadmin''),
           (''start_time'', PInt 1593770319),
           (''end_time'', PInt 1596448719),
           (''recurring'', PInt 0),
           (''comment'', PStr ''Downtime for service'')]]),
      (''hosts'',
         [[(''name'', PStr ''heute''), (''parents'', PList [PStr ''example.com''])],
          [(''name'', PStr ''example.com''), (''parents'', PList [])]]),
      (''services'',
         [[(''host_name'', PStr ''example.com''), (''description'', PStr ''Memory'')],
          [(''host_name'', PStr ''example.com''), (''description'', PStr ''CPU load'')],
          [(''host_name'', PStr ''heute''), (''description'', PStr ''CPU load'')]]),
      (''hostgroups'',
         [[(''name'', PStr ''heute''), (''members'', PList [PStr ''heute''])],
          [(''name'', PStr ''example''),
           (''members'', PList [PStr ''example.com'', PStr ''heute''])]]),
      (''servicegroups'',
         [[(''name'', PStr ''heute''),
           (''members'', PList [PList [PStr ''heute'', PStr ''Memory'']])],
          [(''name'', PStr ''example''),
           (''members'', PList [PList [PStr ''example.com'', PStr ''Memory''],
                                PList [PStr ''example.com'', PStr ''CPU load''],
                                PList [PStr ''heute'', PStr ''CPU load'']])]])]"

definition init :: "string \<Rightarrow> int \<Rightarrow> bool \<Rightarrow> conn" where
  "init today program_start_timestamp report =
     \<lparr>prepend_site = False,
      expected_queries = [],
      num_queries = 0,
      query_index = 0,
      report_multiple = report,
      expect_status_query = None,
      last_response = None,
      tables = default_tables today program_start_timestamp\<rparr>"

definition add_table :: "conn \<Rightarrow> string \<Rightarrow> row list \<Rightarrow> conn" where
  "add_table self name data = self\<lparr>tables := AList.update name data (tables self)\<rparr>"

definition set_prepend_site :: "conn \<Rightarrow> bool \<Rightarrow> conn" where
  "set_prepend_site self b = self\<lparr>prepend_site := b\<rparr>"

text \<open>The query argument of \<^verbatim>\<open>expect_query\<close> is a string or a list of lines.\<close>

datatype query_arg = QStr string | QList "string list"

text \<open>The loop \<^verbatim>\<open>for entry in self._tables.get(table, []): columns = sorted(entry.keys())\<close>
  assigns \<open>columns\<close> once per row.\<close>

fun columns_loop :: "string list \<Rightarrow> row list \<Rightarrow> string list" where
  "columns_loop columns [] = columns"
| "columns_loop columns (entry # rest) = columns_loop (sort (map fst entry)) rest"

text \<open>The inner and outer loops that build \<open>result\<close> from the filtered rows.\<close>

fun row_loop :: "string \<Rightarrow> row \<Rightarrow> string list \<Rightarrow> error + pyval list" where
  "row_loop table entry [] = Inr []"
| "row_loop table entry (col # cols) =
     (case map_of entry col of
        None \<Rightarrow> Inl (KeyError (''Column '' @ [SQ] @ table @ ''.'' @ col @ [SQ]
                               @ '' not known. Add to test-data or fix query.''))
      | Some v \<Rightarrow> (case row_loop table entry cols of
                     Inl e \<Rightarrow> Inl e
                   | Inr vs \<Rightarrow> Inr (v # vs)))"

fun result_loop :: "string \<Rightarrow> string list \<Rightarrow> row list \<Rightarrow> error + response" where
  "result_loop table columns [] = Inr []"
| "result_loop table columns (entry # rest) =
     (case row_loop table entry columns of
        Inl e \<Rightarrow> Inl e
      | Inr r \<Rightarrow> (case result_loop table columns rest of
                    Inl e \<Rightarrow> Inl e
                  | Inr rs \<Rightarrow> Inr (r # rs)))"

text \<open>\<^verbatim>\<open>list.insert(i, x)\<close>: a negative index counts from the end, and the index is
  clamped to the list.\<close>

definition py_insert :: "int \<Rightarrow> 'a \<Rightarrow> 'a list \<Rightarrow> 'a list" where
  "py_insert i x xs =
     (let n = int (length xs);
          j = (if i < 0 then max 0 (i + n) else min i n)
      in take (nat j) xs @ [x] @ drop (nat j) xs)"

text \<open>
  \<^verbatim>\<open>expect_query\<close>, in the order of the source: the check of \<open>match_type\<close>, the
  normalised query, its table and columns, the result rows, the insertion. A table name
  is truthy when it is there and not empty. \<open>resolve_columns\<close> is the value of
  \<open>columns\<close> after the first \<^verbatim>\<open>if\<close>, \<open>resolve_result\<close> the value of \<open>result\<close> after the
  second (or the exception raised there).
\<close>

definition normalize_query :: "query_arg \<Rightarrow> string" where
  "normalize_query query_in =
     rstrip_nl (case query_in of QList ls \<Rightarrow> join [NL] ls | QStr q \<Rightarrow> q)"

definition truthy :: "string option \<Rightarrow> bool" where
  "truthy table \<longleftrightarrow> table \<noteq> None \<and> table \<noteq> Some []"

definition tables_get :: "conn \<Rightarrow> string \<Rightarrow> row list" where
  "tables_get self table = (case map_of (tables self) table of None \<Rightarrow> [] | Some t \<Rightarrow> t)"

definition resolve_columns :: "conn \<Rightarrow> string option \<Rightarrow> string \<Rightarrow> string list" where
  "resolve_columns self table query =
     (let columns = (case column_of_query query of None \<Rightarrow> [] | Some cs \<Rightarrow> cs)
      in if truthy table \<and> columns = []
         then columns_loop columns (tables_get self (the table))
         else columns)"

definition resolve_result ::
  "re_match \<Rightarrow> conn \<Rightarrow> string option \<Rightarrow> string list \<Rightarrow> string \<Rightarrow> error + response" where
  "resolve_result rm self table columns query =
     (if truthy table \<and> columns \<noteq> [] then
        (case map_of (tables self) (the table) of
           None \<Rightarrow> Inl (KeyError (''Table '' @ repr_str (the table)
                                  @ '' not stored. Call .add_table(...)''))
         | Some t \<Rightarrow>
             (case evaluate_filter rm query t of
                Inl e \<Rightarrow> Inl e
              | Inr result_dicts \<Rightarrow> result_loop (the table) columns result_dicts))
      else Inr [])"

definition expect_query ::
  "re_match \<Rightarrow> conn \<Rightarrow> query_arg \<Rightarrow> string \<Rightarrow> int option \<Rightarrow> error + conn" where
  "expect_query rm self query_in match_type force_pos =
     (if match_type \<notin> set [''strict'', ''ellipsis'', ''loose'']
      then Inl (ValueError (''match_type '' @ repr_str match_type @ '' not supported.''))
      else
        let query = normalize_query query_in
        in (case table_of_query query of
              Inl e \<Rightarrow> Inl e
            | Inr table \<Rightarrow>
                let columns = resolve_columns self table query
                in (case resolve_result rm self table columns query of
                      Inl e \<Rightarrow> Inl e
                    | Inr result \<Rightarrow>
                        Inr (self\<lparr>expected_queries :=
                               (case force_pos of
                                  Some pos \<Rightarrow>
                                    py_insert pos (query, columns, result, match_type)
                                      (expected_queries self)
                                | None \<Rightarrow>
                                    expected_queries self
                                    @ [(query, columns, result, match_type)])\<rparr>))))"

text \<open>\<^verbatim>\<open>_expect_post_connect_query\<close>, \<^verbatim>\<open>__call__\<close> and \<^verbatim>\<open>__enter__\<close>.\<close>

definition expect_post_connect_query :: "re_match \<Rightarrow> conn \<Rightarrow> error + conn" where
  "expect_post_connect_query rm self =
     expect_query rm self
       (QList [''GET status'', ''Cache: reload'',
               ''Columns: livestatus_version program_version program_start num_hosts num_services''])
       ''loose'' (Some 0)"

definition call :: "conn \<Rightarrow> bool \<Rightarrow> conn" where
  "call self b = self\<lparr>expect_status_query := Some b\<rparr>"

definition enter :: "re_match \<Rightarrow> conn \<Rightarrow> error + conn" where
  "enter rm self =
     (let self1 = (if expect_status_query self = None
                   then self\<lparr>expect_status_query := Some True\<rparr> else self)
      in if expect_status_query self1 = Some True then expect_post_connect_query rm self1
         else Inr self1)"

section \<open>The query matcher\<close>

text \<open>\<^verbatim>\<open>s.replace(old, new)\<close> for a non-empty \<open>old\<close>, the only use in the module.\<close>

function replace :: "string \<Rightarrow> string \<Rightarrow> string \<Rightarrow> string" where
  "replace old new s =
     (if s = [] then []
      else if old \<noteq> [] \<and> startswith s old then new @ replace old new (drop (length old) s)
      else hd s # replace old new (tl s))"
  by pat_completeness auto

termination replace
  by (relation "measure (\<lambda>(old, new, s). length s)") auto

declare replace.simps [simp del]

text \<open>The \<^verbatim>\<open>for ... else\<close> loop of the \<^verbatim>\<open>loose\<close> branch of \<^verbatim>\<open>_compare\<close>.\<close>

fun loose_loop :: "string list \<Rightarrow> string list \<Rightarrow> bool" where
  "loose_loop string_lines [] = True"
| "loose_loop string_lines (line # rest) =
     (if startswith line ''Cache: '' then loose_loop string_lines rest
      else if line \<notin> set string_lines then False
      else loose_loop string_lines rest)"

definition compare :: "re_match \<Rightarrow> string \<Rightarrow> string \<Rightarrow> string \<Rightarrow> error + bool" where
  "compare rm pattern str match_type =
     (if match_type = ''loose'' then Inr (loose_loop (splitlines str) (splitlines pattern))
      else if match_type = ''strict'' then Inr (pattern = str)
      else if match_type = ''ellipsis'' then
        rm (''^'' @ replace ''...'' ''.*?'' (replace ''['' [BSL, CHR ''[''] pattern) @ ''$'') str
      else Inl (LookupError (''Unsupported match behaviour: '' @ match_type)))"

text \<open>The generator \<^verbatim>\<open>_generate_output\<close>, as the list it yields.\<close>

definition generate_output :: "string \<Rightarrow> string list \<Rightarrow> bool \<Rightarrow> response \<Rightarrow> response" where
  "generate_output show_columns columns prepend response =
     (if show_columns = ''on'' then [map PStr columns] else [])
     @ (if prepend then map (\<lambda>line. PStr ''NO_SITE'' # line) response else response)"

text \<open>
  \<^verbatim>\<open>_lookup_next_query\<close> returns its result or exception together with the state of the
  object afterwards.
\<close>

definition lookup_next_query :: "re_match \<Rightarrow> conn \<Rightarrow> string \<Rightarrow> (error + response) \<times> conn" where
  "lookup_next_query rm self query =
     (if expect_status_query self = None
      then (Inl (RuntimeError ''Please use MockLiveStatusConnection as a context manager.''), self)
      else
        case unpack_headers query of
          Inl e \<Rightarrow> (Inl e, self)
        | Inr header_dict \<Rightarrow>
            let show_columns =
                  (case map_of header_dict ''ColumnHeaders'' of None \<Rightarrow> ''off'' | Some v \<Rightarrow> v)
            in (case expected_queries self of
                 [] \<Rightarrow> (Inl (RuntimeError (''Got unexpected query:'' @ [NL] @ '' * ''
                                           @ repr_str query)), self)
               | (expected_query, columns, response, match_type) # remaining \<Rightarrow>
                   (case compare rm expected_query query match_type of
                      Inl e \<Rightarrow> (Inl e, self)
                    | Inr matched \<Rightarrow>
                        if \<not> matched
                        then (Inl (RuntimeError
                                     (''Expected query ('' @ match_type @ ''):'' @ [NL]
                                      @ '' * '' @ repr_str expected_query @ [NL]
                                      @ ''Got query:'' @ [NL]
                                      @ '' * '' @ repr_str query)), self)
                        else
                          let out = generate_output show_columns columns
                                      (prepend_site self) response
                          in (Inr out,
                              self\<lparr>expected_queries := remaining,
                                   last_response :=
                                     Some (make_livestatus_response out, 0)\<rparr>))))"

text \<open>\<^verbatim>\<open>socket_recv\<close>: \<^verbatim>\<open>StringIO.read(length)\<close> reads up to \<open>length\<close> characters from
  the read position, everything for a negative \<open>length\<close>, and moves the position.\<close>

definition socket_recv :: "conn \<Rightarrow> int \<Rightarrow> (error + bytes) \<times> conn" where
  "socket_recv self len =
     (case last_response self of
        None \<Rightarrow> (Inl (RuntimeError (''Nothing sent yet. Can'' @ [SQ] @ ''t receive!'')), self)
      | Some (text, pos) \<Rightarrow>
          let chunk = (if len < 0 then drop pos text else take (nat len) (drop pos text))
          in (Inr (utf8_encode chunk),
              self\<lparr>last_response := Some (text, pos + length chunk)\<rparr>))"

text \<open>\<^verbatim>\<open>socket_send\<close>: \<^verbatim>\<open>data[-2:]\<close> is the last two bytes (all of \<open>data\<close> when it is
  shorter).\<close>

definition socket_send :: "re_match \<Rightarrow> conn \<Rightarrow> bytes \<Rightarrow> (error + unit) \<times> conn" where
  "socket_send rm self data_in =
     (let data = (if drop (length data_in - 2) data_in = [NL, NL]
                  then take (length data_in - 2) data_in else data_in)
      in case utf8_decode data of
           Inl e \<Rightarrow> (Inl e, self)
         | Inr query \<Rightarrow>
             (case lookup_next_query rm self query of
                (Inl e, self1) \<Rightarrow> (Inl e, self1)
              | (Inr _, self1) \<Rightarrow> (Inr (), self1)))"

section \<open>Specification vocabulary\<close>

text \<open>
  The entry one line contributes to the header dictionary: nothing for a line that starts
  with \<^verbatim>\<open>GET \<close> or has no colon, else the text before the first \<^verbatim>\<open>": "\<close> as key and the
  text after it, without its leading spaces, as value.
\<close>

definition header_entry :: "string \<Rightarrow> (string \<times> string) option" where
  "header_entry line =
     (if startswith line ''GET '' \<or> CHR '':'' \<notin> set line then None
      else map_option (\<lambda>(k, v). (k, dropWhile (\<lambda>c. c = SP) v)) (split_once '': '' line))"

text \<open>The trimming the specification describes for header values: exactly one leading
  space is removed.\<close>

definition spec_trim_one_space :: "string \<Rightarrow> string" where
  "spec_trim_one_space v = (if startswith v '' '' then tl v else v)"


text \<open>The two rows of the examples in the documentation of \<^verbatim>\<open>evaluate_filter\<close>.\<close>

definition example_rows :: "row list" where
  "example_rows =
     [[(''name'', PStr ''heute''), (''state'', PInt 0)],
      [(''name'', PStr ''morgen''), (''state'', PInt 1)]]"



text \<open>The column list the specification describes for a query without \<^verbatim>\<open>Columns:\<close>: the
  union of the column names of all rows of the table, sorted.\<close>

definition spec_union_columns :: "row list \<Rightarrow> string list" where
  "spec_union_columns rows = sort (remdups (concat (map (map fst) rows)))"

text \<open>A table whose rows differ in their columns, as \<^verbatim>\<open>add_table\<close> accepts it.\<close>

definition ragged_conn :: conn where
  "ragged_conn =
     add_table (init ''2020.07.03'' 1593762478 False) ''t''
       [[(''k'', PInt 1), (''a'', PInt 1)], [(''k'', PInt 2)]]"

section \<open>Sessions: declarations followed by exchanges\<close>

text \<open>A test declares its expectations one after the other; the first exception ends
  the test.\<close>

fun declare_all :: "re_match \<Rightarrow> conn \<Rightarrow> (string \<times> string) list \<Rightarrow> error + conn" where
  "declare_all rm self [] = Inr self"
| "declare_all rm self ((query, match_type) # rest) =
     (case expect_query rm self (QStr query) match_type None of
        Inl e \<Rightarrow> Inl e
      | Inr self1 \<Rightarrow> declare_all rm self1 rest)"

text \<open>
  The client side of an exchange, as the \<^verbatim>\<open>livestatus\<close> client does it: the query is sent
  as UTF-8 with the terminator \<^verbatim>\<open>\n\n\<close>, then the reply is received with one call of
  \<^verbatim>\<open>recv(n)\<close>. \<open>exchange_all\<close> does this for a list of queries and collects the
  replies; the first exception ends it.
\<close>

fun exchange_all :: "re_match \<Rightarrow> int \<Rightarrow> conn \<Rightarrow> string list \<Rightarrow> (error + bytes list) \<times> conn" where
  "exchange_all rm n self [] = (Inr [], self)"
| "exchange_all rm n self (query # rest) =
     (case socket_send rm self (utf8_encode query @ [NL, NL]) of
        (Inl e, self1) \<Rightarrow> (Inl e, self1)
      | (Inr u, self1) \<Rightarrow>
          (case socket_recv self1 n of
             (Inl e, self2) \<Rightarrow> (Inl e, self2)
           | (Inr reply, self2) \<Rightarrow>
               (case exchange_all rm n self2 rest of
                  (Inl e, self3) \<Rightarrow> (Inl e, self3)
                | (Inr replies, self3) \<Rightarrow> (Inr (reply # replies), self3))))"

text \<open>
  The reply an expectation stands for when the query \<open>sent\<close> is matched against it: the
  frame of its precomputed rows, with the header row when \<open>sent\<close> has
  \<^verbatim>\<open>ColumnHeaders: on\<close> and with the site marker when \<open>prepend\<close> is set; \<open>read_upto\<close> is
  the part of it one \<^verbatim>\<open>recv(n)\<close> returns.
\<close>

definition show_columns_of :: "string \<Rightarrow> string" where
  "show_columns_of sent =
     (case unpack_headers sent of
        Inl e \<Rightarrow> ''off''
      | Inr header_dict \<Rightarrow>
          (case map_of header_dict ''ColumnHeaders'' of None \<Rightarrow> ''off'' | Some v \<Rightarrow> v))"

definition expected_frame :: "bool \<Rightarrow> string \<Rightarrow> expectation \<Rightarrow> string" where
  "expected_frame prepend sent e =
     (case e of (query, columns, response, match_type) \<Rightarrow>
        make_livestatus_response
          (generate_output (show_columns_of sent) columns prepend response))"

definition read_upto :: "int \<Rightarrow> string \<Rightarrow> string" where
  "read_upto n text = (if n < 0 then text else take (nat n) text)"

text \<open>A whole test: the declarations, then the scope entered with
  \<^verbatim>\<open>expect_status_query=False\<close>, then one exchange for each declared text, in the declared
  order. The result is the list of replies or the first exception.\<close>

definition session :: "re_match \<Rightarrow> int \<Rightarrow> conn \<Rightarrow> (string \<times> string) list \<Rightarrow> error + bytes list" where
  "session rm n self ds =
     (case declare_all rm self ds of
        Inl e \<Rightarrow> Inl e
      | Inr self1 \<Rightarrow>
          (case enter rm (call self1 False) of
             Inl e \<Rightarrow> Inl e
           | Inr self2 \<Rightarrow> fst (exchange_all rm n self2 (map fst ds))))"

text \<open>A decimal digit (not a sign, an underscore or whitespace).\<close>

definition plain_digit :: "char \<Rightarrow> bool" where
  "plain_digit c \<longleftrightarrow> is_digit c \<and> c \<noteq> CHR ''_'' \<and> \<not> is_space c
                     \<and> c \<noteq> CHR ''-'' \<and> c \<noteq> CHR ''+''"

section \<open>Properties of the text functions\<close>

lemma is_space_SP [simp]: "is_space SP"
  by (simp add: is_space_def SP_def)

lemma is_space_blank [simp]: "is_space CHR '' ''"
  by (simp add: is_space_def)

lemma split_once_None_iff: "sep \<noteq> [] \<Longrightarrow> split_once sep s = None \<longleftrightarrow> \<not> contains s sep"
  by (induction s) (auto split: option.splits)

lemma unpack_loop_raises:
  assumes "line \<in> set lines" and "\<not> startswith line ''GET ''" and "CHR '':'' \<in> set line"
    and "\<not> contains line '': ''"
  shows "unpack_loop acc lines = Inl (ValueError ''not enough values to unpack'')"
  using assms(1)
proof (induction lines arbitrary: acc)
  case Nil
  then show ?case by simp
next
  case (Cons h rest)
  have none: "split_once '': '' line = None"
    using assms(4) by (simp add: split_once_None_iff)
  have ne: "line \<noteq> []" using assms(3) by auto
  show ?case
  proof (cases "h = line")
    case True
    then show ?thesis using assms(2,3) none ne by simp
  next
    case False
    then have "line \<in> set rest" using Cons.prems by simp
    then have "\<And>acc. unpack_loop acc rest = Inl (ValueError ''not enough values to unpack'')"
      using Cons.IH by blast
    then show ?thesis by (simp split: option.splits)
  qed
qed

text \<open>Decoding undoes encoding.\<close>

lemma utf8_points_char:
  "utf8_points (utf8_char c @ bs) = map_option (Cons (of_char c)) (utf8_points bs)"
proof (cases "(of_char c :: nat) < 128")
  case True
  then show ?thesis by (simp add: utf8_char_def)
next
  case False
  define n where "n = (of_char c :: nat)"
  have n: "128 \<le> n" "n < 256" using False by (simp_all add: n_def)
  have d: "n div 64 = 2 \<or> n div 64 = 3" using n by arith
  have m: "n mod 64 < 64" by simp
  have b1: "(of_char (char_of (192 + n div 64)) :: nat) = 192 + n div 64"
    using d by auto
  have b2: "(of_char (char_of (128 + n mod 64)) :: nat) = 128 + n mod 64"
    using m by simp
  have cp: "(192 + n div 64 - 192) * 64 + (128 + n mod 64 - 128) = n" by simp
  show ?thesis
    using False d b1 b2 cp
    by (auto simp add: utf8_char_def Let_def is_cont_def cont_bits_def n_def [symmetric])
qed

lemma utf8_points_encode: "utf8_points (utf8_encode s) = Some (map of_char s)"
  by (induction s) (simp_all add: utf8_encode_def utf8_points_char)

lemma utf8_roundtrip: "utf8_decode (utf8_encode s) = Inr s"
  by (simp add: utf8_decode_def utf8_points_encode list_all_iff comp_def)

text \<open>A query sent with the frame terminator \<^verbatim>\<open>\n\n\<close> reaches \<^verbatim>\<open>_lookup_next_query\<close>
  as it is.\<close>

lemma socket_send_terminated:
  "socket_send rm self (utf8_encode query @ [NL, NL]) =
     (case lookup_next_query rm self query of
        (Inl e, self1) \<Rightarrow> (Inl e, self1)
      | (Inr out, self1) \<Rightarrow> (Inr (), self1))"
  by (simp add: socket_send_def utf8_roundtrip)

section \<open>Header unpacking is partial\<close>

text \<open>
  C10. Header unpacking is not total. A query with a line that does not start with
  \<^verbatim>\<open>GET \<close>, has a colon and has no colon followed by a space makes \<^verbatim>\<open>_unpack_headers\<close>
  raise the \<^verbatim>\<open>ValueError\<close> of the failed tuple unpacking. Inside an entered scope
  \<^verbatim>\<open>_lookup_next_query\<close> and \<^verbatim>\<open>socket_send\<close> raise the same error for such a query and
  leave the connection as it was.
\<close>

theorem unpack_headers_not_total:
  assumes "line \<in> set (splitlines query)"
    and "\<not> startswith line ''GET ''"
    and "CHR '':'' \<in> set line"
    and "\<not> contains line '': ''"
  shows "unpack_headers query = Inl (ValueError ''not enough values to unpack'')
         \<and> (expect_status_query self \<noteq> None \<longrightarrow>
              lookup_next_query rm self query
                = (Inl (ValueError ''not enough values to unpack''), self)
              \<and> socket_send rm self (utf8_encode query @ [NL, NL])
                = (Inl (ValueError ''not enough values to unpack''), self))"
proof -
  have u: "unpack_headers query = Inl (ValueError ''not enough values to unpack'')"
    unfolding unpack_headers_def using assms by (rule unpack_loop_raises)
  have l: "lookup_next_query rm self query
             = (Inl (ValueError ''not enough values to unpack''), self)"
    if "expect_status_query self \<noteq> None"
    using that u by (simp add: lookup_next_query_def)
  show ?thesis using u l by (simp add: socket_send_terminated)
qed

theorem unpack_headers_not_total_witness:
  "unpack_headers (''GET hosts'' @ [NL] @ ''ColumnHeaders:on'')
     = Inl (ValueError ''not enough values to unpack'')
   \<and> expect_status_query (call (init ''2020.07.03'' 1593762478 False) False) \<noteq> None
   \<and> socket_send (\<lambda>p s. Inr False) (call (init ''2020.07.03'' 1593762478 False) False)
        (utf8_encode (''GET hosts'' @ [NL] @ ''ColumnHeaders:on'') @ [NL, NL])
     = (Inl (ValueError ''not enough values to unpack''),
        call (init ''2020.07.03'' 1593762478 False) False)"
proof -
  have h1: "''ColumnHeaders:on'' \<in> set (splitlines (''GET hosts'' @ [NL] @ ''ColumnHeaders:on''))"
    by code_simp
  have h2: "\<not> startswith ''ColumnHeaders:on'' ''GET ''" by simp
  have h3: "CHR '':'' \<in> set ''ColumnHeaders:on''" by simp
  have h4: "\<not> contains ''ColumnHeaders:on'' '': ''" by simp
  have h5: "expect_status_query (call (init ''2020.07.03'' 1593762478 False) False) \<noteq> None"
    by (simp add: call_def)
  show ?thesis
    using unpack_headers_not_total
            [OF h1 h2 h3 h4, of "call (init ''2020.07.03'' 1593762478 False) False"
               "\<lambda>p s. Inr False"] h5
    by simp
qed

section \<open>Header unpacking: what it returns\<close>

lemma startswith_iff: "startswith s p \<longleftrightarrow> (\<exists>r. s = p @ r)"
  by (induction s p rule: startswith.induct) auto

lemma contains_iff: "contains s sub \<longleftrightarrow> (\<exists>a b. s = a @ sub @ b)"
proof (induction s)
  case Nil
  then show ?case by auto
next
  case (Cons c cs)
  show ?case
  proof
    assume "contains (c # cs) sub"
    then consider "startswith (c # cs) sub" | "contains cs sub" by auto
    then show "\<exists>a b. c # cs = a @ sub @ b"
    proof cases
      case 1
      then obtain r where "c # cs = sub @ r" by (auto simp: startswith_iff)
      then have "c # cs = [] @ sub @ r" by simp
      then show ?thesis by blast
    next
      case 2
      then obtain a b where "cs = a @ sub @ b" using Cons.IH by auto
      then have "c # cs = (c # a) @ sub @ b" by simp
      then show ?thesis by blast
    qed
  next
    assume "\<exists>a b. c # cs = a @ sub @ b"
    then obtain a b where ab: "c # cs = a @ sub @ b" by auto
    show "contains (c # cs) sub"
    proof (cases a)
      case Nil
      then have "startswith (c # cs) sub" using ab by (auto simp: startswith_iff)
      then show ?thesis by simp
    next
      case (Cons x a')
      then have "cs = a' @ sub @ b" using ab by simp
      then have "contains cs sub" using Cons.IH by blast
      then show ?thesis by simp
    qed
  qed
qed

lemma split_once_Some:
  assumes "split_once sep s = Some (k, v)" and "sep \<noteq> []"
  shows "s = k @ sep @ v \<and> \<not> contains (k @ butlast sep) sep"
  using assms(1)
proof (induction s arbitrary: k)
  case Nil
  then show ?case by simp
next
  case (Cons c cs)
  show ?case
  proof (cases "startswith (c # cs) sep")
    case True
    then have k: "k = []" and v: "v = drop (length sep) (c # cs)" using Cons.prems by auto
    from True obtain r where r: "c # cs = sep @ r" by (auto simp: startswith_iff)
    have "\<not> contains (butlast sep) sep"
    proof
      assume "contains (butlast sep) sep"
      then obtain a b where "butlast sep = a @ sep @ b" by (auto simp: contains_iff)
      then have "length (butlast sep) = length a + length sep + length b" by simp
      then have "length sep - 1 = length a + length sep + length b" by simp
      moreover have "0 < length sep" using assms(2) by simp
      ultimately show False by linarith
    qed
    then show ?thesis using k v r by simp
  next
    case False
    then obtain k' where sp: "split_once sep cs = Some (k', v)" and k: "k = c # k'"
      using Cons.prems by (auto split: option.splits)
    from Cons.IH [OF sp] have cs: "cs = k' @ sep @ v" and nc: "\<not> contains (k' @ butlast sep) sep"
      by auto
    have "\<not> startswith (c # k' @ butlast sep) sep"
    proof
      assume "startswith (c # k' @ butlast sep) sep"
      then obtain r where eq: "c # k' @ butlast sep = sep @ r" by (auto simp: startswith_iff)
      have bl: "butlast sep @ [last sep] = sep" using assms(2) by simp
      have "c # cs = c # k' @ (butlast sep @ [last sep]) @ v" unfolding bl using cs by simp
      then have "c # cs = (c # k' @ butlast sep) @ [last sep] @ v" by simp
      then have "c # cs = (sep @ r) @ [last sep] @ v" unfolding eq .
      then have "c # cs = sep @ (r @ [last sep] @ v)" by simp
      then show False using False by (auto simp: startswith_iff)
    qed
    then show ?thesis using k cs nc by simp
  qed
qed

lemma update_subset:
  "(a, b) \<in> set (AList.update k v al) \<Longrightarrow> (a, b) = (k, v) \<or> (a, b) \<in> set al"
  by (induction al) (auto split: if_splits)

lemma unpack_loop_total:
  assumes "\<forall>line\<in>set lines. \<not> startswith line ''GET '' \<and> CHR '':'' \<in> set line
             \<longrightarrow> contains line '': ''"
    and "distinct (map fst acc)"
    and "\<forall>(k, v)\<in>set acc. \<not> startswith v '' ''"
  shows "\<exists>unpacked. unpack_loop acc lines = Inr unpacked
           \<and> distinct (map fst unpacked)
           \<and> map_of unpacked = map_of acc ++ map_of (rev (List.map_filter header_entry lines))
           \<and> (\<forall>(k, v)\<in>set unpacked. \<not> startswith v '' '')"
  using assms
proof (induction lines arbitrary: acc)
  case Nil
  then show ?case by simp
next
  case (Cons h rest)
  have rest_ok: "\<forall>line\<in>set rest. \<not> startswith line ''GET '' \<and> CHR '':'' \<in> set line
             \<longrightarrow> contains line '': ''"
    using Cons.prems(1) by simp
  show ?case
  proof (cases "startswith h ''GET '' \<or> CHR '':'' \<notin> set h")
    case True
    then have skip: "unpack_loop acc (h # rest) = unpack_loop acc rest" by auto
    have none: "header_entry h = None" using True by (simp add: header_entry_def)
    show ?thesis
      using Cons.IH [OF rest_ok Cons.prems(2) Cons.prems(3)] skip none
      by simp
  next
    case False
    then have "contains h '': ''" using Cons.prems(1) by simp
    then obtain k v where sp: "split_once '': '' h = Some (k, v)"
      using split_once_None_iff [of "'': ''" h] by (cases "split_once '': '' h") auto
    have hne: "h \<noteq> []" using False by auto
    let ?v = "dropWhile (\<lambda>c. c = SP) v"
    let ?acc = "AList.update k (lstrip_sp v) acc"
    have step: "unpack_loop acc (h # rest) = unpack_loop ?acc rest"
      using False sp hne by simp
    have entry: "header_entry h = Some (k, ?v)" using False sp by (simp add: header_entry_def)
    have d: "distinct (map fst ?acc)" using Cons.prems(2) by (simp add: distinct_update)
    have nosp: "\<not> startswith ?v '' ''"
    proof
      assume "startswith ?v '' ''"
      then obtain r where "?v = '' '' @ r" unfolding startswith_iff by blast
      then have eq: "dropWhile (\<lambda>c. c = SP) v = SP # r" by (simp add: SP_def)
      then have "dropWhile (\<lambda>c. c = SP) v \<noteq> []" by simp
      from hd_dropWhile [OF this] show False unfolding eq by simp
    qed
    have inv: "\<forall>(a, b)\<in>set ?acc. \<not> startswith b '' ''"
    proof (clarify)
      fix a b
      assume ab: "(a, b) \<in> set ?acc" and sw: "startswith b '' ''"
      from update_subset [OF ab] show False
      proof
        assume "(a, b) = (k, lstrip_sp v)"
        then show False using nosp sw by (simp add: lstrip_sp_def)
      next
        assume "(a, b) \<in> set acc"
        then show False using Cons.prems(3) sw by auto
      qed
    qed
    from Cons.IH [OF rest_ok d inv] obtain unpacked where
      u: "unpack_loop ?acc rest = Inr unpacked" "distinct (map fst unpacked)"
         "map_of unpacked = map_of ?acc ++ map_of (rev (List.map_filter header_entry rest))"
         "\<forall>(k, v)\<in>set unpacked. \<not> startswith v '' ''"
      by blast
    have mf: "List.map_filter header_entry (h # rest)
                = (k, ?v) # List.map_filter header_entry rest"
      using entry by simp
    have "map_of ?acc = map_of acc ++ [k \<mapsto> ?v]"
      by (simp add: update_conv' lstrip_sp_def)
    then have "map_of ?acc ++ map_of (rev (List.map_filter header_entry rest))
          = map_of acc ++ map_of (rev (List.map_filter header_entry (h # rest)))"
      unfolding mf by (simp only: rev.simps map_of_append map_of.simps map_add_assoc fst_conv snd_conv map_add_empty)
    then show ?thesis using u step by simp
  qed
qed

text \<open>
  C9 (amended). When every line that does not start with \<^verbatim>\<open>GET \<close> and has a colon also has
  \<^verbatim>\<open>": "\<close>, header unpacking returns a dictionary: each such line is split at its first
  \<^verbatim>\<open>": "\<close> into key and value, all leading spaces of the value are removed (not only one),
  a later line replaces an earlier one with the same key, and all other lines are ignored.
\<close>

theorem unpack_headers_strips_leading_spaces:
  assumes "\<forall>line\<in>set (splitlines query).
             \<not> startswith line ''GET '' \<and> CHR '':'' \<in> set line \<longrightarrow> contains line '': ''"
  shows "(\<exists>unpacked. unpack_headers query = Inr unpacked
            \<and> distinct (map fst unpacked)
            \<and> map_of unpacked = map_of (rev (List.map_filter header_entry (splitlines query)))
            \<and> (\<forall>(k, v)\<in>set unpacked. \<not> startswith v '' ''))
         \<and> (\<forall>line k v. header_entry line = Some (k, v) \<longrightarrow>
               \<not> startswith line ''GET ''
               \<and> (\<exists>w. line = k @ '': '' @ w \<and> \<not> contains (k @ '':'') '': ''
                      \<and> v = dropWhile (\<lambda>c. c = SP) w))"
proof
  show "\<exists>unpacked. unpack_headers query = Inr unpacked
            \<and> distinct (map fst unpacked)
            \<and> map_of unpacked = map_of (rev (List.map_filter header_entry (splitlines query)))
            \<and> (\<forall>(k, v)\<in>set unpacked. \<not> startswith v '' '')"
    using unpack_loop_total [OF assms, of "[]"] by (simp add: unpack_headers_def)
next
  show "\<forall>line k v. header_entry line = Some (k, v) \<longrightarrow>
               \<not> startswith line ''GET ''
               \<and> (\<exists>w. line = k @ '': '' @ w \<and> \<not> contains (k @ '':'') '': ''
                      \<and> v = dropWhile (\<lambda>c. c = SP) w)"
  proof (intro allI impI)
    fix line k v
    assume e: "header_entry line = Some (k, v)"
    then have g: "\<not> startswith line ''GET ''"
      by (auto simp: header_entry_def split: if_splits)
    from e obtain w where sp: "split_once '': '' line = Some (k, w)"
      and v: "v = dropWhile (\<lambda>c. c = SP) w"
      by (auto simp: header_entry_def split: if_splits)
    have "line = k @ '': '' @ w \<and> \<not> contains (k @ butlast '': '') '': ''"
      by (rule split_once_Some [OF sp]) simp
    then show "\<not> startswith line ''GET ''
               \<and> (\<exists>w. line = k @ '': '' @ w \<and> \<not> contains (k @ '':'') '': ''
                      \<and> v = dropWhile (\<lambda>c. c = SP) w)"
      using g v by auto
  qed
qed

theorem unpack_headers_strips_leading_spaces_witness:
  "splitlines (''GET hosts'' @ [NL] @ ''Key:   v'' @ [NL] @ ''Foobar!'' @ [NL]
               @ ''ColumnHeaders: off'')
     = [''GET hosts'', ''Key:   v'', ''Foobar!'', ''ColumnHeaders: off'']
   \<and> (\<exists>unpacked.
         unpack_headers (''GET hosts'' @ [NL] @ ''Key:   v'' @ [NL] @ ''Foobar!'' @ [NL]
                         @ ''ColumnHeaders: off'') = Inr unpacked
         \<and> unpacked = [(''Key'', ''v''), (''ColumnHeaders'', ''off'')]
         \<and> (\<forall>(k, v)\<in>set unpacked. \<not> startswith v '' ''))"
proof -
  have h: "\<forall>line\<in>set (splitlines (''GET hosts'' @ [NL] @ ''Key:   v'' @ [NL] @ ''Foobar!'' @ [NL]
                              @ ''ColumnHeaders: off'')).
      \<not> startswith line ''GET '' \<and> CHR '':'' \<in> set line \<longrightarrow> contains line '': ''"
    by code_simp
  have v: "unpack_headers (''GET hosts'' @ [NL] @ ''Key:   v'' @ [NL] @ ''Foobar!'' @ [NL]
                         @ ''ColumnHeaders: off'')
             = Inr [(''Key'', ''v''), (''ColumnHeaders'', ''off'')]"
    by code_simp
  have l: "splitlines (''GET hosts'' @ [NL] @ ''Key:   v'' @ [NL] @ ''Foobar!'' @ [NL]
               @ ''ColumnHeaders: off'')
     = [''GET hosts'', ''Key:   v'', ''Foobar!'', ''ColumnHeaders: off'']"
    by code_simp
  show ?thesis
    using unpack_headers_strips_leading_spaces [OF h] l v by auto
qed

theorem unpack_headers_single_space_counterexample:
  "split_once '': '' ''Key:   v'' = Some (''Key'', ''  v'')
   \<and> spec_trim_one_space ''  v'' = '' v''
   \<and> unpack_headers ''Key:   v'' = Inr [(''Key'', ''v'')]
   \<and> unpack_headers ''Key:   v'' \<noteq> Inr [(''Key'', spec_trim_one_space ''  v'')]"
  by code_simp

section \<open>Loose comparison\<close>

lemma loose_loop_iff:
  "loose_loop string_lines pattern_lines \<longleftrightarrow>
     (\<forall>line\<in>set pattern_lines. \<not> startswith line ''Cache: '' \<longrightarrow> line \<in> set string_lines)"
  by (induction pattern_lines) auto

text \<open>
  C6. Under \<^verbatim>\<open>loose\<close> the comparison succeeds exactly when every line of the expected query
  that is not a \<^verbatim>\<open>Cache:\<close> line (a line starting with \<^verbatim>\<open>Cache: \<close>) is, as a whole line, one
  of the lines of the actual query. So an actual query with the same or more lines, in any
  order, still matches.
\<close>

theorem compare_loose_iff:
  "compare rm expected actual ''loose''
     = Inr (\<forall>line\<in>set (splitlines expected).
              \<not> startswith line ''Cache: '' \<longrightarrow> line \<in> set (splitlines actual))
   \<and> (set (splitlines actual) \<subseteq> set (splitlines actual') \<longrightarrow>
        compare rm expected actual ''loose'' = Inr True \<longrightarrow>
        compare rm expected actual' ''loose'' = Inr True)"
  by (auto simp: compare_def loose_loop_iff)

theorem compare_loose_iff_witness:
  "set (splitlines (''GET hosts'' @ [NL] @ ''Cache: reload'' @ [NL] @ ''Columns: name''))
     \<subseteq> set (splitlines (''Localtime: 12345'' @ [NL] @ ''Columns: name'' @ [NL] @ ''Cache: reload'' @ [NL] @ ''GET hosts''))
   \<and> compare (\<lambda>p s. Inr False) (''GET hosts'' @ [NL] @ ''Columns: name'')
        (''GET hosts'' @ [NL] @ ''Cache: reload'' @ [NL] @ ''Columns: name'') ''loose'' = Inr True
   \<and> compare (\<lambda>p s. Inr False) (''GET hosts'' @ [NL] @ ''Columns: name'')
        (''Localtime: 12345'' @ [NL] @ ''Columns: name'' @ [NL] @ ''Cache: reload'' @ [NL] @ ''GET hosts'') ''loose'' = Inr True
   \<and> compare (\<lambda>p s. Inr False) (''GET hosts'' @ [NL] @ ''Columns: name'')
        (''GET hosts'' @ [NL] @ ''Columns: alias name'') ''loose'' = Inr False"
proof -
  have h1: "set (splitlines (''GET hosts'' @ [NL] @ ''Cache: reload'' @ [NL] @ ''Columns: name''))
     \<subseteq> set (splitlines (''Localtime: 12345'' @ [NL] @ ''Columns: name'' @ [NL] @ ''Cache: reload'' @ [NL] @ ''GET hosts''))"
    by code_simp
  have h2: "compare (\<lambda>p s. Inr False) (''GET hosts'' @ [NL] @ ''Columns: name'')
        (''GET hosts'' @ [NL] @ ''Cache: reload'' @ [NL] @ ''Columns: name'') ''loose'' = Inr True"
    by code_simp
  have h3: "\<not> (\<forall>line\<in>set (splitlines (''GET hosts'' @ [NL] @ ''Columns: name'')).
              \<not> startswith line ''Cache: '' \<longrightarrow>
              line \<in> set (splitlines (''GET hosts'' @ [NL] @ ''Columns: alias name'')))"
    by code_simp
  show ?thesis
    using compare_loose_iff [of "\<lambda>p s. Inr False" "''GET hosts'' @ [NL] @ ''Columns: name''"
            "''GET hosts'' @ [NL] @ ''Cache: reload'' @ [NL] @ ''Columns: name''"
            "''Localtime: 12345'' @ [NL] @ ''Columns: name'' @ [NL] @ ''Cache: reload'' @ [NL] @ ''GET hosts''"]
          compare_loose_iff [of "\<lambda>p s. Inr False" "''GET hosts'' @ [NL] @ ''Columns: name''"
            "''GET hosts'' @ [NL] @ ''Columns: alias name''" "[]"]
          h1 h2 h3
    by simp
qed

section \<open>The wire frame\<close>

lemma length_utf8_encode:
  "length (utf8_encode s) = length s + length (filter (\<lambda>c. 128 \<le> (of_char c :: nat)) s)"
  by (induction s) (auto simp: utf8_encode_def utf8_char_def Let_def)

lemma str_nat_200: "str_nat 200 = ''200''"
  by code_simp

text \<open>The decimal numeral \<^verbatim>\<open>str\<close> writes is read back by \<^verbatim>\<open>int\<close>, also behind padding.\<close>

lemma digit_char_props:
  assumes "d < 10"
  shows "is_digit (digit_char d) \<and> digit_val (digit_char d) = d
         \<and> digit_char d \<noteq> CHR ''_'' \<and> \<not> is_space (digit_char d)
         \<and> digit_char d \<noteq> CHR ''-'' \<and> digit_char d \<noteq> CHR ''+''"
proof -
  have "\<forall>d\<in>set [0..<10]. is_digit (digit_char d) \<and> digit_val (digit_char d) = d
         \<and> digit_char d \<noteq> CHR ''_'' \<and> \<not> is_space (digit_char d)
         \<and> digit_char d \<noteq> CHR ''-'' \<and> digit_char d \<noteq> CHR ''+''"
    by code_simp
  then show ?thesis using assms by simp
qed

lemma str_nat_digits: "str_nat n \<noteq> [] \<and> (\<forall>c\<in>set (str_nat n). plain_digit c)"
proof (induction n rule: str_nat.induct)
  case (1 n)
  show ?case
  proof (cases "n < 10")
    case True
    then show ?thesis
      using digit_char_props [of n] by (subst (1 2) str_nat.simps) (simp add: plain_digit_def)
  next
    case False
    have "n mod 10 < 10" by simp
    then have "plain_digit (digit_char (n mod 10))"
      using digit_char_props [of "n mod 10"] by (simp add: plain_digit_def)
    then show ?thesis
      using False 1 by (subst (1 2) str_nat.simps) simp
  qed
qed

lemma digits_ok_plain: "ds \<noteq> [] \<Longrightarrow> \<forall>c\<in>set ds. plain_digit c \<Longrightarrow> digits_ok ds"
  by (induction ds rule: digits_ok.induct) (auto simp: plain_digit_def)

lemma digits_value_snoc:
  "c \<noteq> CHR ''_'' \<Longrightarrow> digits_value (ds @ [c]) = 10 * digits_value ds + digit_val c"
  by (simp add: digits_value_def)

lemma digits_value_str_nat: "digits_value (str_nat n) = n"
proof (induction n rule: str_nat.induct)
  case (1 n)
  show ?case
  proof (cases "n < 10")
    case True
    then show ?thesis
      using digit_char_props [of n] by (subst str_nat.simps) (simp add: digits_value_def)
  next
    case False
    have "n mod 10 < 10" by simp
    then have d: "digit_char (n mod 10) \<noteq> CHR ''_''" "digit_val (digit_char (n mod 10)) = n mod 10"
      using digit_char_props [of "n mod 10"] by simp_all
    have "digits_value (str_nat (n div 10) @ [digit_char (n mod 10)])
            = 10 * (n div 10) + n mod 10"
      using 1 False d by (simp add: digits_value_snoc)
    then show ?thesis using False by (subst str_nat.simps) simp
  qed
qed

lemma is_int_space_imp: "is_int_space c \<Longrightarrow> is_space c"
  by (auto simp: is_int_space_def is_space_def)

lemma strip_ws_padded:
  assumes "ds \<noteq> []" and "\<forall>c\<in>set ds. \<not> is_int_space c"
  shows "strip_ws (replicate k SP @ ds) = ds"
proof -
  obtain c cs where ds: "ds = c # cs" using assms(1) by (cases ds) auto
  have sp: "is_int_space SP" by (simp add: is_int_space_def SP_def)
  have "dropWhile is_int_space (replicate k SP @ ds) = ds"
    using assms(2) ds sp by (induction k) auto
  moreover have "dropWhile is_int_space (rev ds) = rev ds"
    using assms by (cases "rev ds") auto
  ultimately show ?thesis by (simp add: strip_ws_def)
qed

lemma py_int_padded_str_nat: "py_int (rjust w (str_nat n)) = Inr (int n)"
proof -
  let ?ds = "str_nat n"
  from str_nat_digits [of n] have ne: "?ds \<noteq> []" and pd: "\<forall>c\<in>set ?ds. plain_digit c"
    by auto
  then have ns: "\<forall>c\<in>set ?ds. \<not> is_int_space c"
    using is_int_space_imp by (auto simp: plain_digit_def)
  have s: "strip_ws (rjust w ?ds) = ?ds"
    unfolding rjust_def by (rule strip_ws_padded [OF ne ns])
  have "hd ?ds \<in> set ?ds" using ne by simp
  then have "plain_digit (hd ?ds)" using pd by blast
  then have nosign: "hd ?ds \<noteq> CHR ''-''" "hd ?ds \<noteq> CHR ''+''" by (auto simp: plain_digit_def)
  show ?thesis
    unfolding py_int_def s
    using nosign digits_ok_plain [OF ne pd] by (simp add: Let_def digits_value_str_nat)
qed

text \<open>
  C5 (amended). The frame is \<^verbatim>\<open>200\<close>, a space, the number of characters of the serialised
  body right-justified in eleven columns, a newline and the body; the length field reads
  back as that number. The number of bytes the
  body has on the wire is that number plus one for every character from U+0080 on, so the
  length field is the byte length exactly for an ASCII body.
\<close>

theorem make_livestatus_response_frame:
  "(let body = repr (PList (map PList response)) in
      make_livestatus_response response
        = ''200'' @ '' '' @ replicate (11 - length (str_nat (length body))) SP
          @ str_nat (length body) @ [NL] @ body
      \<and> py_int (replicate (11 - length (str_nat (length body))) SP @ str_nat (length body))
          = Inr (int (length body))
      \<and> length (utf8_encode body)
          = length body + length (filter (\<lambda>c. 128 \<le> (of_char c :: nat)) body))"
  using py_int_padded_str_nat [of 11 "length (repr (PList (map PList response)))"]
  by (simp add: make_livestatus_response_def Let_def ljust_def rjust_def str_nat_200
        length_utf8_encode SP_def)

theorem make_livestatus_response_length_counterexample:
  "make_livestatus_response [[PStr [CHR 0xFC]]]
     = ''200           7'' @ [NL] @ ''[['' @ [SQ, CHR 0xFC, SQ] @ '']]''
   \<and> length (utf8_encode (''[['' @ [SQ, CHR 0xFC, SQ] @ '']]'')) = 8"
  by code_simp

section \<open>The expectation queue is first-in, first-out\<close>








section \<open>The filter evaluator and its working list\<close>

lemma select_rows_ok:
  "(\<forall>r\<in>set rows. \<exists>b. f r = Inr b) \<Longrightarrow>
   select_rows f rows = Inr (filter (\<lambda>r. f r = Inr True) rows)"
  by (induction rows) auto

lemma select_rows_error:
  "(\<exists>r\<in>set rows. \<exists>e. f r = Inl e) \<Longrightarrow> \<exists>e. select_rows f rows = Inl e"
proof (induction rows)
  case Nil
  then show ?case by simp
next
  case (Cons a rows)
  show ?case
  proof (cases "f a")
    case (Inl e)
    then show ?thesis by simp
  next
    case (Inr b)
    then have "\<exists>r\<in>set rows. \<exists>e. f r = Inl e" using Cons.prems by auto
    then obtain e where "select_rows f rows = Inl e" using Cons.IH by blast
    then show ?thesis using Inr by simp
  qed
qed

lemma filters_loop_count:
  assumes "\<forall>l\<in>set lines. \<not> startswith l ''And:'' \<and> \<not> startswith l ''Or:''"
    and "filters_loop rm fs lines = Inr fs'"
  shows "length fs' = length fs + length (filter (\<lambda>l. startswith l ''Filter:'') lines)"
  using assms
proof (induction lines arbitrary: fs)
  case Nil
  then show ?case by simp
next
  case (Cons l lines)
  show ?case
  proof (cases "startswith l ''Filter:''")
    case True
    then obtain f where f: "make_filter_func rm l = Inr f"
      and rest: "filters_loop rm (fs @ [f]) lines = Inr fs'"
      using Cons.prems(2) by (auto split: sum.splits)
    have "length fs' = length (fs @ [f]) + length (filter (\<lambda>l. startswith l ''Filter:'') lines)"
      using Cons.IH [OF _ rest] Cons.prems(1) by simp
    then show ?thesis using True by simp
  next
    case False
    then have rest: "filters_loop rm fs lines = Inr fs'"
      using Cons.prems by auto
    have "length fs' = length fs + length (filter (\<lambda>l. startswith l ''Filter:'') lines)"
      using Cons.IH [OF _ rest] Cons.prems(1) by simp
    then show ?thesis using False by simp
  qed
qed

text \<open>
  C7. Let \<open>filters\<close> be the working list after the loop of \<^verbatim>\<open>evaluate_filter\<close> has
  processed all lines of the query. With more than one filter left the function raises the
  \<^verbatim>\<open>ValueError\<close> "Got n filters, expected one. Forgot And/Or?". With none left it returns
  the input rows as they are. With exactly one left it returns the rows for which that
  filter is true, in their order (or raises what the filter raises on a row). Without
  \<^verbatim>\<open>And:\<close> and \<^verbatim>\<open>Or:\<close> lines the number of filters left is the number of \<^verbatim>\<open>Filter:\<close>
  lines.
\<close>

theorem evaluate_filter_by_stack:
  assumes "filters_loop rm [] (splitlines query) = Inr filters"
  shows "(length filters > 1 \<longrightarrow>
            evaluate_filter rm query rows
              = Inl (ValueError (''Got '' @ str_nat (length filters)
                                 @ '' filters, expected one. Forgot And/Or?'')))
         \<and> (filters = [] \<longrightarrow> evaluate_filter rm query rows = Inr rows)
         \<and> (\<forall>f. filters = [f] \<longrightarrow>
               ((\<forall>r\<in>set rows. \<exists>b. f r = Inr b) \<longrightarrow>
                  evaluate_filter rm query rows = Inr (filter (\<lambda>r. f r = Inr True) rows))
               \<and> ((\<exists>r\<in>set rows. \<exists>e. f r = Inl e) \<longrightarrow>
                    (\<exists>e. evaluate_filter rm query rows = Inl e)))
         \<and> ((\<forall>l\<in>set (splitlines query). \<not> startswith l ''And:'' \<and> \<not> startswith l ''Or:'') \<longrightarrow>
               length filters
                 = length (filter (\<lambda>l. startswith l ''Filter:'') (splitlines query)))"
proof (intro conjI allI impI)
  assume "length filters > 1"
  then have "filters \<noteq> []" by auto
  then show "evaluate_filter rm query rows
              = Inl (ValueError (''Got '' @ str_nat (length filters)
                                 @ '' filters, expected one. Forgot And/Or?''))"
    using assms \<open>length filters > 1\<close> by (simp add: evaluate_filter_def)
next
  assume "filters = []"
  then show "evaluate_filter rm query rows = Inr rows"
    using assms by (simp add: evaluate_filter_def)
next
  fix f
  assume f: "filters = [f]" and ok: "\<forall>r\<in>set rows. \<exists>b. f r = Inr b"
  show "evaluate_filter rm query rows = Inr (filter (\<lambda>r. f r = Inr True) rows)"
    using assms f select_rows_ok [OF ok] by (simp add: evaluate_filter_def)
next
  fix f
  assume f: "filters = [f]" and bad: "\<exists>r\<in>set rows. \<exists>e. f r = Inl e"
  show "\<exists>e. evaluate_filter rm query rows = Inl e"
    using assms f select_rows_error [OF bad] by (simp add: evaluate_filter_def)
next
  assume "\<forall>l\<in>set (splitlines query). \<not> startswith l ''And:'' \<and> \<not> startswith l ''Or:''"
  from filters_loop_count [OF this assms]
  show "length filters = length (filter (\<lambda>l. startswith l ''Filter:'') (splitlines query))"
    by simp
qed

theorem evaluate_filter_by_stack_witness:
  "evaluate_filter (\<lambda>p s. Inr False) ''GET hosts'' example_rows = Inr example_rows
   \<and> evaluate_filter (\<lambda>p s. Inr False)
        (''GET hosts'' @ [NL] @ ''Filter: name = heute'' @ [NL] @ ''Filter: state > 0'')
        example_rows
      = Inl (ValueError ''Got 2 filters, expected one. Forgot And/Or?'')
   \<and> evaluate_filter (\<lambda>p s. Inr False) (''GET hosts'' @ [NL] @ ''Filter: name = heute'')
        example_rows
      = Inr [[(''name'', PStr ''heute''), (''state'', PInt 0)]]"
proof -
  let ?rm = "\<lambda>p s. Inr False :: error + bool"
  let ?q2 = "''GET hosts'' @ [NL] @ ''Filter: name = heute'' @ [NL] @ ''Filter: state > 0''"
  let ?q1 = "''GET hosts'' @ [NL] @ ''Filter: name = heute''"
  have n0: "map_sum id length (filters_loop ?rm [] (splitlines ''GET hosts'')) = Inr 0"
    by code_simp
  then have z: "filters_loop ?rm [] (splitlines ''GET hosts'') = Inr []"
    by (cases "filters_loop ?rm [] (splitlines ''GET hosts'')") auto
  have a: "evaluate_filter ?rm ''GET hosts'' example_rows = Inr example_rows"
    using evaluate_filter_by_stack [OF z, of example_rows] by simp
  have n2: "map_sum id length (filters_loop ?rm [] (splitlines ?q2)) = Inr 2" by code_simp
  then obtain fs2 where fs2: "filters_loop ?rm [] (splitlines ?q2) = Inr fs2"
    and l2: "length fs2 = 2"
    by (cases "filters_loop ?rm [] (splitlines ?q2)") auto
  have s2: "str_nat 2 = ''2''" by code_simp
  have b: "evaluate_filter ?rm ?q2 example_rows
             = Inl (ValueError ''Got 2 filters, expected one. Forgot And/Or?'')"
    using evaluate_filter_by_stack [OF fs2, of example_rows] l2 s2 by simp
  have n1: "map_sum id (\<lambda>fs. (length fs, map (hd fs) example_rows))
              (filters_loop ?rm [] (splitlines ?q1)) = Inr (1, [Inr True, Inr False])"
    by code_simp
  then obtain fs1 where fs1: "filters_loop ?rm [] (splitlines ?q1) = Inr fs1"
    and l1: "length fs1 = 1" and v1: "map (hd fs1) example_rows = [Inr True, Inr False]"
    by (cases "filters_loop ?rm [] (splitlines ?q1)") auto
  from l1 obtain f where f: "fs1 = [f]" by (cases fs1) auto
  have v: "f [(''name'', PStr ''heute''), (''state'', PInt 0)] = Inr True"
          "f [(''name'', PStr ''morgen''), (''state'', PInt 1)] = Inr False"
    using v1 f by (simp_all add: example_rows_def)
  have ok: "\<forall>r\<in>set example_rows. \<exists>b. f r = Inr b"
    using v by (auto simp: example_rows_def)
  have c: "evaluate_filter ?rm ?q1 example_rows
             = Inr [[(''name'', PStr ''heute''), (''state'', PInt 0)]]"
    using evaluate_filter_by_stack [OF fs1, of example_rows] f ok v
    by (simp add: example_rows_def)
  show ?thesis using a b c by simp
qed

section \<open>The operators \<^verbatim>\<open>>=\<close> and \<^verbatim>\<open><=\<close>\<close>










section \<open>Declaring an expectation: the inferred columns\<close>

lemma columns_loop_last:
  "columns_loop columns rows = (if rows = [] then columns else sort (map fst (last rows)))"
  by (induction rows arbitrary: columns) auto

lemma split_ws_max_nonempty: "x \<in> set (split_ws_max n s) \<Longrightarrow> x \<noteq> []"
proof (induction n arbitrary: s)
  case 0
  then show ?case by (auto split: if_splits)
next
  case (Suc n)
  show ?case
  proof (cases "dropWhile is_space s = []")
    case True
    then show ?thesis using Suc.prems by simp
  next
    case False
    then obtain c cs where eq: "dropWhile is_space s = c # cs"
      by (cases "dropWhile is_space s") auto
    have "\<not> is_space c" using hd_dropWhile [OF False] eq by simp
    then have "takeWhile (\<lambda>c. \<not> is_space c) (dropWhile is_space s) \<noteq> []"
      using eq by simp
    moreover have "split_ws_max (Suc n) s
        = takeWhile (\<lambda>c. \<not> is_space c) (dropWhile is_space s)
          # split_ws_max n (dropWhile (\<lambda>c. \<not> is_space c) (dropWhile is_space s))"
      using False by (simp del: dropWhile_eq_Nil_conv)
    ultimately show ?thesis using Suc.prems Suc.IH by (auto simp del: split_ws_max.simps)
  qed
qed

lemma table_of_query_nonempty: "table_of_query query = Inr (Some t) \<Longrightarrow> t \<noteq> []"
proof -
  assume a: "table_of_query query = Inr (Some t)"
  then obtain first rest where l: "splitlines query = first # rest"
    by (cases "splitlines query") (auto simp: table_of_query_def)
  from a l have "t \<in> set (split_ws_max 1 first)"
    by (auto simp: table_of_query_def simp del: split_ws_max.simps
          split: if_splits list.splits)
  then show "t \<noteq> []" by (rule split_ws_max_nonempty)
qed

lemma sorted_union_uniform:
  assumes "rows \<noteq> []"
    and "\<forall>r\<in>set rows. set (map fst r) = set (map fst (last rows))"
    and "distinct (map fst (last rows))"
  shows "sort (map fst (last rows)) = spec_union_columns rows"
proof -
  have "set (concat (map (map fst) rows)) = (\<Union>r\<in>set rows. set (map fst r))" by auto
  also have "\<dots> = set (map fst (last rows))"
  proof -
    have "last rows \<in> set rows" using assms(1) by simp
    then show ?thesis using assms(2) by blast
  qed
  finally have s: "set (remdups (concat (map (map fst) rows))) = set (map fst (last rows))"
    by simp
  have "sort (remdups (concat (map (map fst) rows))) = sort (map fst (last rows))"
    by (rule sorted_distinct_set_unique) (use s assms(3) in simp_all)
  then show ?thesis by (simp add: spec_union_columns_def)
qed

text \<open>What \<^verbatim>\<open>expect_query\<close> does once the match type is valid and the table is named.\<close>

lemma expect_query_named:
  assumes "match_type \<in> set [''strict'', ''ellipsis'', ''loose'']"
    and "table_of_query (normalize_query q) = Inr (Some t)"
  shows "expect_query rm self q match_type force_pos =
           (case resolve_result rm self (Some t)
                   (resolve_columns self (Some t) (normalize_query q)) (normalize_query q) of
              Inl e \<Rightarrow> Inl e
            | Inr result \<Rightarrow>
                Inr (self\<lparr>expected_queries :=
                       (case force_pos of
                          Some pos \<Rightarrow>
                            py_insert pos
                              (normalize_query q,
                               resolve_columns self (Some t) (normalize_query q), result, match_type)
                              (expected_queries self)
                        | None \<Rightarrow>
                            expected_queries self
                            @ [(normalize_query q,
                                resolve_columns self (Some t) (normalize_query q), result,
                                match_type)])\<rparr>))"
  using assms by (simp add: expect_query_def Let_def)

lemma resolve_columns_inferred:
  assumes "t \<noteq> []" and "column_of_query query = None"
  shows "resolve_columns self (Some t) query
         = (if tables_get self t = [] then [] else sort (map fst (last (tables_get self t))))"
  using assms by (simp add: resolve_columns_def truthy_def columns_loop_last)

text \<open>
  C3 (amended). When the query of a declaration names a table and has no \<^verbatim>\<open>Columns:\<close>
  line, the column list of the new expectation is the sorted list of the column names of
  the last row the table has at that moment, and empty when the table has no rows or is
  not stored. When every row of the table has the columns of the last row, this is the
  sorted union of the column names of all rows.
\<close>

theorem expect_query_columns_of_last_row:
  assumes "table_of_query (normalize_query q) = Inr (Some t)"
    and "column_of_query (normalize_query q) = None"
    and "expect_query rm self q match_type force_pos = Inr self'"
  shows "(\<exists>result.
            expected_queries self' =
              (let entry = (normalize_query q,
                            (if tables_get self t = [] then []
                             else sort (map fst (last (tables_get self t)))),
                            result, match_type)
               in case force_pos of
                    Some pos \<Rightarrow> py_insert pos entry (expected_queries self)
                  | None \<Rightarrow> expected_queries self @ [entry]))
         \<and> (tables_get self t \<noteq> []
              \<and> (\<forall>r\<in>set (tables_get self t).
                    set (map fst r) = set (map fst (last (tables_get self t))))
              \<and> distinct (map fst (last (tables_get self t))) \<longrightarrow>
              sort (map fst (last (tables_get self t))) = spec_union_columns (tables_get self t))"
proof
  have mt: "match_type \<in> set [''strict'', ''ellipsis'', ''loose'']"
    using assms(3) by (auto simp: expect_query_def split: if_splits)
  have t: "t \<noteq> []" using assms(1) by (rule table_of_query_nonempty)
  note cols = resolve_columns_inferred [OF t assms(2), of self]
  show "\<exists>result.
            expected_queries self' =
              (let entry = (normalize_query q,
                            (if tables_get self t = [] then []
                             else sort (map fst (last (tables_get self t)))),
                            result, match_type)
               in case force_pos of
                    Some pos \<Rightarrow> py_insert pos entry (expected_queries self)
                  | None \<Rightarrow> expected_queries self @ [entry])"
    using assms(3) unfolding expect_query_named [OF mt assms(1)] cols
    by (auto simp: Let_def split: sum.splits)
next
  show "tables_get self t \<noteq> []
              \<and> (\<forall>r\<in>set (tables_get self t).
                    set (map fst r) = set (map fst (last (tables_get self t))))
              \<and> distinct (map fst (last (tables_get self t))) \<longrightarrow>
              sort (map fst (last (tables_get self t))) = spec_union_columns (tables_get self t)"
    using sorted_union_uniform by blast
qed

theorem expect_query_columns_of_last_row_witness:
  "table_of_query (normalize_query (QStr ''GET hosts'')) = Inr (Some ''hosts'')
   \<and> column_of_query (normalize_query (QStr ''GET hosts'')) = None
   \<and> (\<exists>self'. expect_query (\<lambda>p s. Inr False) (init ''2020.07.03'' 1593762478 False)
                   (QStr ''GET hosts'') ''loose'' None = Inr self'
         \<and> expected_queries self'
             = [(''GET hosts'', [''name'', ''parents''],
                 [[PStr ''heute'', PList [PStr ''example.com'']],
                  [PStr ''example.com'', PList []]], ''loose'')])
   \<and> spec_union_columns (tables_get (init ''2020.07.03'' 1593762478 False) ''hosts'')
       = [''name'', ''parents'']"
proof -
  let ?c = "init ''2020.07.03'' 1593762478 False"
  let ?rm = "\<lambda>p s. Inr False :: error + bool"
  have h1: "table_of_query (normalize_query (QStr ''GET hosts'')) = Inr (Some ''hosts'')"
    by code_simp
  have h2: "column_of_query (normalize_query (QStr ''GET hosts'')) = None"
    by code_simp
  have v: "map_sum id expected_queries (expect_query ?rm ?c (QStr ''GET hosts'') ''loose'' None)
             = Inr [(''GET hosts'', [''name'', ''parents''],
                     [[PStr ''heute'', PList [PStr ''example.com'']],
                      [PStr ''example.com'', PList []]], ''loose'')]"
    by code_simp
  then obtain self' where h3: "expect_query ?rm ?c (QStr ''GET hosts'') ''loose'' None = Inr self'"
    and q: "expected_queries self'
             = [(''GET hosts'', [''name'', ''parents''],
                 [[PStr ''heute'', PList [PStr ''example.com'']],
                  [PStr ''example.com'', PList []]], ''loose'')]"
    by (cases "expect_query ?rm ?c (QStr ''GET hosts'') ''loose'' None") auto
  have u: "tables_get ?c ''hosts'' \<noteq> []
           \<and> (\<forall>r\<in>set (tables_get ?c ''hosts'').
                 set (map fst r) = set (map fst (last (tables_get ?c ''hosts''))))
           \<and> distinct (map fst (last (tables_get ?c ''hosts'')))"
    by code_simp
  have l: "sort (map fst (last (tables_get ?c ''hosts''))) = [''name'', ''parents'']"
    by code_simp
  have "tables_get ?c ''hosts'' \<noteq> []
           \<and> (\<forall>r\<in>set (tables_get ?c ''hosts'').
                 set (map fst r) = set (map fst (last (tables_get ?c ''hosts''))))
           \<and> distinct (map fst (last (tables_get ?c ''hosts''))) \<longrightarrow>
        sort (map fst (last (tables_get ?c ''hosts'')))
          = spec_union_columns (tables_get ?c ''hosts'')"
    using expect_query_columns_of_last_row [OF h1 h2 h3] by (rule conjunct2)
  from this [rule_format, OF u]
  have s: "spec_union_columns (tables_get ?c ''hosts'') = [''name'', ''parents'']"
    unfolding l by (rule sym)
  show ?thesis using h1 h2 h3 q s by blast
qed

theorem expect_query_columns_union_counterexample:
  "table_of_query (normalize_query (QStr ''GET t'')) = Inr (Some ''t'')
   \<and> column_of_query (normalize_query (QStr ''GET t'')) = None
   \<and> map_sum id expected_queries
        (expect_query (\<lambda>p s. Inr False) ragged_conn (QStr ''GET t'') ''loose'' None)
       = Inr [(''GET t'', [''k''], [[PInt 1], [PInt 2]], ''loose'')]
   \<and> spec_union_columns (tables_get ragged_conn ''t'') = [''a'', ''k'']"
  by code_simp

section \<open>Declaring an expectation: unknown tables and columns\<close>

lemma row_loop_ok:
  "(\<forall>c\<in>set cols. map_of r c \<noteq> None) \<Longrightarrow>
   row_loop t r cols = Inr (map (\<lambda>c. the (map_of r c)) cols)"
  by (induction cols) auto

lemma row_loop_KeyError:
  "(\<exists>c\<in>set cols. map_of r c = None) \<Longrightarrow> \<exists>msg. row_loop t r cols = Inl (KeyError msg)"
proof (induction cols)
  case Nil
  then show ?case by simp
next
  case (Cons c cols)
  show ?case
  proof (cases "map_of r c")
    case None
    then show ?thesis by simp
  next
    case (Some v)
    then have "\<exists>c\<in>set cols. map_of r c = None" using Cons.prems by auto
    then obtain msg where "row_loop t r cols = Inl (KeyError msg)" using Cons.IH by blast
    then show ?thesis using Some by simp
  qed
qed

lemma result_loop_ok:
  "(\<forall>r\<in>set rs. \<forall>c\<in>set cols. map_of r c \<noteq> None) \<Longrightarrow>
   result_loop t cols rs = Inr (map (\<lambda>r. map (\<lambda>c. the (map_of r c)) cols) rs)"
  by (induction rs) (auto simp: row_loop_ok)

lemma result_loop_KeyError:
  "(\<exists>r\<in>set rs. \<exists>c\<in>set cols. map_of r c = None) \<Longrightarrow>
   \<exists>msg. result_loop t cols rs = Inl (KeyError msg)"
proof (induction rs)
  case Nil
  then show ?case by simp
next
  case (Cons r rs)
  show ?case
  proof (cases "\<exists>c\<in>set cols. map_of r c = None")
    case True
    then obtain msg where "row_loop t r cols = Inl (KeyError msg)"
      using row_loop_KeyError by blast
    then show ?thesis by simp
  next
    case False
    then have "\<forall>c\<in>set cols. map_of r c \<noteq> None" by simp
    then have ok: "row_loop t r cols = Inr (map (\<lambda>c. the (map_of r c)) cols)"
      by (rule row_loop_ok)
    from False have "\<exists>r\<in>set rs. \<exists>c\<in>set cols. map_of r c = None"
      using Cons.prems by auto
    then obtain msg where "result_loop t cols rs = Inl (KeyError msg)" using Cons.IH by blast
    then show ?thesis using ok by simp
  qed
qed

lemma resolve_result_unknown_table:
  assumes "t \<noteq> []" and "map_of (tables self) t = None"
  shows "resolve_result rm self (Some t) cols query
         = (if cols = [] then Inr []
            else Inl (KeyError (''Table '' @ repr_str t @ '' not stored. Call .add_table(...)'')))"
  using assms by (simp add: resolve_result_def truthy_def)

lemma resolve_result_known_table:
  assumes "t \<noteq> []" and "map_of (tables self) t = Some rows"
    and "evaluate_filter rm query rows = Inr selected"
  shows "resolve_result rm self (Some t) cols query
         = (if cols = [] then Inr [] else result_loop t cols selected)"
  using assms by (simp add: resolve_result_def truthy_def)

text \<open>
  C8 (amended). Let the query of a declaration name a table. If the table is not stored
  and the query gives no columns, the declaration succeeds with no columns and no result
  rows; if it is not stored and the query gives columns, the declaration raises
  \<^verbatim>\<open>KeyError\<close>. If the table is stored and the filters of the query select rows without
  raising, the declaration raises \<^verbatim>\<open>KeyError\<close> at once when a resolved column is missing
  from one of the \<^emph>\<open>selected\<close> rows, and succeeds when every selected row has every
  resolved column; rows the filters reject are not looked at.
\<close>

theorem expect_query_resolution:
  assumes "match_type \<in> set [''strict'', ''ellipsis'', ''loose'']"
    and "table_of_query (normalize_query q) = Inr (Some t)"
  shows "(map_of (tables self) t = None \<longrightarrow>
            (column_of_query (normalize_query q) \<in> {None, Some []} \<longrightarrow>
               expect_query rm self q match_type None
                 = Inr (self\<lparr>expected_queries :=
                          expected_queries self @ [(normalize_query q, [], [], match_type)]\<rparr>))
            \<and> (column_of_query (normalize_query q) \<notin> {None, Some []} \<longrightarrow>
                 (\<exists>msg. expect_query rm self q match_type force_pos = Inl (KeyError msg))))
         \<and> (\<forall>rows selected.
               map_of (tables self) t = Some rows
               \<and> evaluate_filter rm (normalize_query q) rows = Inr selected \<longrightarrow>
               ((\<exists>r\<in>set selected.
                   \<exists>c\<in>set (resolve_columns self (Some t) (normalize_query q)).
                     map_of r c = None) \<longrightarrow>
                  (\<exists>msg. expect_query rm self q match_type force_pos = Inl (KeyError msg)))
               \<and> ((\<forall>r\<in>set selected.
                      \<forall>c\<in>set (resolve_columns self (Some t) (normalize_query q)).
                        map_of r c \<noteq> None) \<longrightarrow>
                    (\<exists>self'. expect_query rm self q match_type force_pos = Inr self')))"
proof (intro conjI allI impI)
  have t: "t \<noteq> []" using assms(2) by (rule table_of_query_nonempty)
  note eq = expect_query_named [OF assms, of rm self]
  {
    assume none: "map_of (tables self) t = None"
      and c: "column_of_query (normalize_query q) \<in> {None, Some []}"
    have g: "tables_get self t = []" using none by (simp add: tables_get_def)
    have cols: "resolve_columns self (Some t) (normalize_query q) = []"
      using c g t by (auto simp: resolve_columns_def truthy_def)
    show "expect_query rm self q match_type None
            = Inr (self\<lparr>expected_queries :=
                     expected_queries self @ [(normalize_query q, [], [], match_type)]\<rparr>)"
      unfolding eq cols resolve_result_unknown_table [OF t none] by simp
  }
  {
    assume none: "map_of (tables self) t = None"
      and c: "column_of_query (normalize_query q) \<notin> {None, Some []}"
    then obtain cs where cs: "column_of_query (normalize_query q) = Some cs" "cs \<noteq> []"
      by (cases "column_of_query (normalize_query q)") auto
    have cols: "resolve_columns self (Some t) (normalize_query q) = cs"
      using cs by (simp add: resolve_columns_def)
    show "\<exists>msg. expect_query rm self q match_type force_pos = Inl (KeyError msg)"
      unfolding eq cols resolve_result_unknown_table [OF t none] using cs(2) by simp
  }
  {
    fix rows selected
    assume a: "map_of (tables self) t = Some rows
               \<and> evaluate_filter rm (normalize_query q) rows = Inr selected"
    note rr = resolve_result_known_table [OF t conjunct1 [OF a] conjunct2 [OF a]]
    {
      assume bad: "\<exists>r\<in>set selected.
                   \<exists>c\<in>set (resolve_columns self (Some t) (normalize_query q)).
                     map_of r c = None"
      then have ne: "resolve_columns self (Some t) (normalize_query q) \<noteq> []" by auto
      from result_loop_KeyError [OF bad, of t] obtain msg where
        "result_loop t (resolve_columns self (Some t) (normalize_query q)) selected
           = Inl (KeyError msg)"
        by blast
      then show "\<exists>msg. expect_query rm self q match_type force_pos = Inl (KeyError msg)"
        unfolding eq rr using ne by simp
    }
    {
      assume ok: "\<forall>r\<in>set selected.
                      \<forall>c\<in>set (resolve_columns self (Some t) (normalize_query q)).
                        map_of r c \<noteq> None"
      show "\<exists>self'. expect_query rm self q match_type force_pos = Inr self'"
        unfolding eq rr result_loop_ok [OF ok] by simp
    }
  }
qed


theorem expect_query_resolution_witness:
  "expect_query (\<lambda>p s. Inr False) (init ''2020.07.03'' 1593762478 False)
     (QStr ''GET foo'') ''loose'' None
     = Inr ((init ''2020.07.03'' 1593762478 False)
              \<lparr>expected_queries :=
                 expected_queries (init ''2020.07.03'' 1593762478 False)
                 @ [(''GET foo'', [], [], ''loose'')]\<rparr>)
   \<and> (\<exists>msg. expect_query (\<lambda>p s. Inr False) (init ''2020.07.03'' 1593762478 False)
                (QStr (''GET foo'' @ [NL] @ ''Columns: name'')) ''loose'' None
              = Inl (KeyError msg))
   \<and> (\<exists>msg. expect_query (\<lambda>p s. Inr False) (init ''2020.07.03'' 1593762478 False)
                (QStr (''GET hosts'' @ [NL] @ ''Columns: alias'')) ''loose'' None
              = Inl (KeyError msg))
   \<and> (\<exists>self'. expect_query (\<lambda>p s. Inr False) (init ''2020.07.03'' 1593762478 False)
                (QStr (''GET hosts'' @ [NL] @ ''Columns: name'')) ''loose'' None
              = Inr self')"
proof -
  let ?c = "init ''2020.07.03'' 1593762478 False"
  let ?rm = "\<lambda>p s. Inr False :: error + bool"
  let ?q2 = "QStr (''GET foo'' @ [NL] @ ''Columns: name'')"
  let ?q3 = "QStr (''GET hosts'' @ [NL] @ ''Columns: alias'')"
  let ?q4 = "QStr (''GET hosts'' @ [NL] @ ''Columns: name'')"
  let ?hosts = "[[(''name'', PStr ''heute''), (''parents'', PList [PStr ''example.com''])],
                 [(''name'', PStr ''example.com''), (''parents'', PList [])]]"
  have mt: "''loose'' \<in> set [''strict'', ''ellipsis'', ''loose'']" by simp
  have n1: "normalize_query (QStr ''GET foo'') = ''GET foo''" by code_simp
  have t1: "table_of_query (normalize_query (QStr ''GET foo'')) = Inr (Some ''foo'')"
    by code_simp
  have u1: "map_of (tables ?c) ''foo'' = None" by code_simp
  have c1: "column_of_query (normalize_query (QStr ''GET foo'')) \<in> {None, Some []}"
    by code_simp
  have 1: "expect_query ?rm ?c (QStr ''GET foo'') ''loose'' None
     = Inr (?c\<lparr>expected_queries := expected_queries ?c @ [(''GET foo'', [], [], ''loose'')]\<rparr>)"
    using expect_query_resolution [OF mt t1, of ?c ?rm None, THEN conjunct1, rule_format, OF u1,
            THEN conjunct1, rule_format, OF c1]
    unfolding n1 .
  have t2: "table_of_query (normalize_query ?q2) = Inr (Some ''foo'')" by code_simp
  have c2: "column_of_query (normalize_query ?q2) \<notin> {None, Some []}" by code_simp
  have 2: "\<exists>msg. expect_query ?rm ?c ?q2 ''loose'' None = Inl (KeyError msg)"
    using expect_query_resolution [OF mt t2, of ?c ?rm None, THEN conjunct1, rule_format, OF u1,
            THEN conjunct2, rule_format, OF c2] .
  have t3: "table_of_query (normalize_query ?q3) = Inr (Some ''hosts'')" by code_simp
  have s3: "map_of (tables ?c) ''hosts'' = Some ?hosts
            \<and> evaluate_filter ?rm (normalize_query ?q3) ?hosts = Inr ?hosts"
    by code_simp
  have b3: "\<exists>r\<in>set ?hosts. \<exists>c\<in>set (resolve_columns ?c (Some ''hosts'') (normalize_query ?q3)).
              map_of r c = None"
    by code_simp
  have 3: "\<exists>msg. expect_query ?rm ?c ?q3 ''loose'' None = Inl (KeyError msg)"
    using expect_query_resolution [OF mt t3, of ?c ?rm None, THEN conjunct2, rule_format, OF s3,
            THEN conjunct1, rule_format, OF b3] .
  have t4: "table_of_query (normalize_query ?q4) = Inr (Some ''hosts'')" by code_simp
  have s4: "map_of (tables ?c) ''hosts'' = Some ?hosts
            \<and> evaluate_filter ?rm (normalize_query ?q4) ?hosts = Inr ?hosts"
    by code_simp
  have b4: "\<forall>r\<in>set ?hosts. \<forall>c\<in>set (resolve_columns ?c (Some ''hosts'') (normalize_query ?q4)).
              map_of r c \<noteq> None"
    by code_simp
  have 4: "\<exists>self'. expect_query ?rm ?c ?q4 ''loose'' None = Inr self'"
    using expect_query_resolution [OF mt t4, of ?c ?rm None, THEN conjunct2, THEN spec,
            THEN spec, THEN mp, OF s4, THEN conjunct2, THEN mp, OF b4] .
  show ?thesis using 1 2 3 4 by blast
qed

theorem expect_query_missing_column_counterexample:
  "map_of (tables ragged_conn) ''t'' = Some [[(''k'', PInt 1), (''a'', PInt 1)], [(''k'', PInt 2)]]
   \<and> resolve_columns ragged_conn (Some ''t'')
        (''GET t'' @ [NL] @ ''Columns: a'' @ [NL] @ ''Filter: k = 1'') = [''a'']
   \<and> map_of [(''k'', PInt 2)] ''a'' = None
   \<and> map_sum id expected_queries
        (expect_query (\<lambda>p s. Inr False) ragged_conn
           (QStr (''GET t'' @ [NL] @ ''Columns: a'' @ [NL] @ ''Filter: k = 1'')) ''loose'' None)
       = Inr [(''GET t'' @ [NL] @ ''Columns: a'' @ [NL] @ ''Filter: k = 1'', [''a''],
               [[PInt 1]], ''loose'')]"
  by code_simp

section \<open>Queries submitted in the declared order\<close>

text \<open>Text appended behind a line boundary leaves the lines before it as they are.\<close>

lemma splitlines_append:
  assumes "ns = [] \<or> is_linebreak (hd ns)"
  shows "\<exists>more. splitlines (r @ ns) = splitlines r @ more"
proof (induction r rule: splitlines.induct)
  case (1 s)
  let ?P = "\<lambda>c. \<not> is_linebreak c"
  show ?case
  proof (cases "s = []")
    case True
    then show ?thesis by (simp add: splitlines.simps [of "[]"])
  next
    case False
    note IH = 1 [OF False]
    show ?thesis
    proof (cases "dropWhile ?P s")
      case Nil
      then have all: "\<forall>c\<in>set s. ?P c" by simp
      have tn: "takeWhile ?P ns = []" using assms by (cases ns) auto
      have "takeWhile ?P (s @ ns) = s" using all tn by simp
      then have a: "splitlines (s @ ns) = s # splitlines (after_break (dropWhile ?P (s @ ns)))"
        using False by (subst splitlines.simps) simp
      have ts: "takeWhile ?P s = s" using all by simp
      have "splitlines s = takeWhile ?P s # splitlines (after_break (dropWhile ?P s))"
        using False by (subst splitlines.simps) simp
      then have b: "splitlines s = [s]"
        unfolding Nil ts by (simp add: splitlines.simps [of "[]"])
      show ?thesis unfolding a b by simp
    next
      case (Cons c cs)
      then have ex: "\<exists>x\<in>set s. \<not> ?P x"
        by (metis dropWhile_eq_Nil_conv list.distinct(1))
      have t: "takeWhile ?P (s @ ns) = takeWhile ?P s"
        using ex by auto
      have d: "dropWhile ?P (s @ ns) = c # cs @ ns"
        using ex Cons by auto
      have a: "splitlines (s @ ns) = takeWhile ?P s # splitlines (after_break (c # cs @ ns))"
        using False by (subst splitlines.simps) (simp add: t d)
      have b: "splitlines s = takeWhile ?P s # splitlines (after_break (c # cs))"
        using False Cons by (subst splitlines.simps) simp
      show ?thesis
      proof (cases "cs = []")
        case True
        then have "splitlines (after_break (c # cs)) = []"
          by (simp add: splitlines.simps [of "[]"])
        then show ?thesis unfolding a b by simp
      next
        case cne: False
        then have "after_break (c # cs @ ns) = after_break (c # cs) @ ns" by auto
        moreover obtain more where
          "splitlines (after_break (c # cs) @ ns) = splitlines (after_break (c # cs)) @ more"
          using IH Cons by auto
        ultimately show ?thesis unfolding a b by simp
      qed
    qed
  qed
qed

lemma rstrip_nl_decompose:
  "\<exists>ns. q = rstrip_nl q @ ns \<and> (ns = [] \<or> is_linebreak (hd ns))"
proof -
  let ?ns = "rev (takeWhile (\<lambda>c. c = NL) (rev q))"
  have "rev (rev q) = rev (takeWhile (\<lambda>c. c = NL) (rev q) @ dropWhile (\<lambda>c. c = NL) (rev q))"
    by (simp only: takeWhile_dropWhile_id)
  then have q: "q = rstrip_nl q @ ?ns" by (simp only: rev_rev_ident rev_append rstrip_nl_def)
  have "\<forall>c\<in>set ?ns. c = NL" using set_takeWhileD [of _ "\<lambda>c. c = NL" "rev q"] by auto
  then have "?ns = [] \<or> is_linebreak (hd ?ns)"
    by (cases ?ns) (auto simp: is_linebreak_def NL_def)
  then show ?thesis using q by blast
qed

lemma lines_rstrip_subset: "set (splitlines (rstrip_nl q)) \<subseteq> set (splitlines q)"
proof -
  obtain ns where ns: "q = rstrip_nl q @ ns" "ns = [] \<or> is_linebreak (hd ns)"
    using rstrip_nl_decompose by blast
  obtain more where "splitlines (rstrip_nl q @ ns) = splitlines (rstrip_nl q) @ more"
    using splitlines_append [OF ns(2)] by blast
  then have "splitlines q = splitlines (rstrip_nl q) @ more" using ns(1) by simp
  then show ?thesis by auto
qed

text \<open>A declared text matches itself, strictly when it has no trailing newline and
  loosely always.\<close>

lemma compare_declared:
  assumes "match_type = ''loose'' \<or> (match_type = ''strict'' \<and> rstrip_nl q = q)"
  shows "compare rm (rstrip_nl q) q match_type = Inr True"
  using assms lines_rstrip_subset [of q]
  by (auto simp: compare_def loose_loop_iff)


text \<open>One exchange against a matching head of the queue.\<close>

lemma lookup_next_query_match:
  assumes "expect_status_query self \<noteq> None"
    and "expected_queries self = (e, cols, res, mt) # rest"
    and "compare rm e q mt = Inr True"
    and "unpack_headers q = Inr h"
  shows "lookup_next_query rm self q
         = (Inr (generate_output (show_columns_of q) cols (prepend_site self) res),
            self\<lparr>expected_queries := rest,
                 last_response := Some (expected_frame (prepend_site self) q (e, cols, res, mt), 0)\<rparr>)"
  using assms
  by (simp add: lookup_next_query_def show_columns_of_def expected_frame_def Let_def)

lemma socket_recv_fresh:
  assumes "last_response self = Some (frame, 0)"
  shows "socket_recv self n
         = (Inr (utf8_encode (read_upto n frame)),
            self\<lparr>last_response := Some (frame, length (read_upto n frame))\<rparr>)"
  using assms by (simp add: socket_recv_def read_upto_def Let_def)

lemma exchange_all_queue:
  assumes "list_all2 (\<lambda>q e. (\<exists>h. unpack_headers q = Inr h)
                          \<and> compare rm (fst e) q (snd (snd (snd e))) = Inr True) qs es"
    and "expect_status_query self \<noteq> None"
    and "expected_queries self = es"
  shows "\<exists>self'. exchange_all rm n self qs
                   = (Inr (map2 (\<lambda>q e. utf8_encode
                                          (read_upto n (expected_frame (prepend_site self) q e)))
                             qs es), self')
                 \<and> expected_queries self' = []"
  using assms
proof (induction qs es arbitrary: self rule: list_all2_induct)
  case Nil
  then show ?case by simp
next
  case (Cons q qs e es)
  obtain eq cols res mt where e: "e = (eq, cols, res, mt)" by (cases e) auto
  from Cons.hyps(1) obtain h where h: "unpack_headers q = Inr h"
    and m: "compare rm eq q mt = Inr True"
    using e by auto
  let ?frame = "expected_frame (prepend_site self) q (eq, cols, res, mt)"
  let ?self1 = "self\<lparr>expected_queries := es, last_response := Some (?frame, 0)\<rparr>"
  let ?self2 = "?self1\<lparr>last_response := Some (?frame, length (read_upto n ?frame))\<rparr>"
  have q: "expected_queries self = (eq, cols, res, mt) # es" using Cons.prems(2) e by simp
  have send: "socket_send rm self (utf8_encode q @ [NL, NL]) = (Inr (), ?self1)"
    unfolding socket_send_terminated lookup_next_query_match [OF Cons.prems(1) q m h] by simp
  have recv: "socket_recv ?self1 n = (Inr (utf8_encode (read_upto n ?frame)), ?self2)"
    by (rule socket_recv_fresh) simp
  have "expect_status_query ?self2 \<noteq> None" "expected_queries ?self2 = es"
    using Cons.prems(1) by simp_all
  from Cons.IH [OF this] obtain self' where
    rest: "exchange_all rm n ?self2 qs
             = (Inr (map2 (\<lambda>q e. utf8_encode
                                    (read_upto n (expected_frame (prepend_site ?self2) q e)))
                       qs es), self')"
    and empty: "expected_queries self' = []"
    by blast
  have "exchange_all rm n self (q # qs)
          = (Inr (map2 (\<lambda>q e. utf8_encode
                                 (read_upto n (expected_frame (prepend_site self) q e)))
                    (q # qs) (e # es)), self')"
    unfolding exchange_all.simps send using recv rest e by simp
  then show ?case using empty by blast
qed

text \<open>What a successful declaration adds to the queue.\<close>

lemma expect_query_appends:
  assumes "expect_query rm self (QStr q) mt None = Inr self1"
  shows "mt \<in> set [''strict'', ''ellipsis'', ''loose'']
         \<and> (\<exists>cols res. self1 = self\<lparr>expected_queries :=
                                      expected_queries self @ [(rstrip_nl q, cols, res, mt)]\<rparr>)"
  using assms
  by (auto simp: expect_query_def normalize_query_def Let_def split: if_splits sum.splits)

lemma declare_all_queue:
  assumes "declare_all rm self ds = Inr self1"
  shows "\<exists>new. expected_queries self1 = expected_queries self @ new
               \<and> list_all2 (\<lambda>d e. fst e = rstrip_nl (fst d) \<and> snd (snd (snd e)) = snd d
                                  \<and> snd d \<in> set [''strict'', ''ellipsis'', ''loose'']) ds new
               \<and> prepend_site self1 = prepend_site self
               \<and> expect_status_query self1 = expect_status_query self"
  using assms
proof (induction ds arbitrary: self)
  case Nil
  then show ?case by simp
next
  case (Cons d ds)
  obtain q mt where d: "d = (q, mt)" by (cases d) auto
  from Cons.prems obtain self' where
    one: "expect_query rm self (QStr q) mt None = Inr self'"
    and more: "declare_all rm self' ds = Inr self1"
    using d by (auto split: sum.splits)
  from expect_query_appends [OF one] obtain cols res where
    mt: "mt \<in> set [''strict'', ''ellipsis'', ''loose'']"
    and s: "self' = self\<lparr>expected_queries :=
                            expected_queries self @ [(rstrip_nl q, cols, res, mt)]\<rparr>"
    by blast
  from Cons.IH [OF more] obtain new where
    n: "expected_queries self1 = expected_queries self' @ new"
       "list_all2 (\<lambda>d e. fst e = rstrip_nl (fst d) \<and> snd (snd (snd e)) = snd d
                         \<and> snd d \<in> set [''strict'', ''ellipsis'', ''loose'']) ds new"
       "prepend_site self1 = prepend_site self'"
       "expect_status_query self1 = expect_status_query self'"
    by blast
  have "expected_queries self1 = expected_queries self @ ((rstrip_nl q, cols, res, mt) # new)"
    using n(1) s by simp
  moreover have "list_all2 (\<lambda>d e. fst e = rstrip_nl (fst d) \<and> snd (snd (snd e)) = snd d
                         \<and> snd d \<in> set [''strict'', ''ellipsis'', ''loose''])
                   (d # ds) ((rstrip_nl q, cols, res, mt) # new)"
    using n(2) d mt by simp
  moreover have "prepend_site self1 = prepend_site self"
    "expect_status_query self1 = expect_status_query self"
    using n(3,4) s by simp_all
  ultimately show ?case by blast
qed


lemma enter_no_status_query: "enter rm (call self False) = Inr (call self False)"
  by (simp add: enter_def call_def Let_def)

text \<open>The texts of valid declarations match the expectations made from them.\<close>

lemma declared_texts_match:
  assumes "list_all2 (\<lambda>d e. fst e = rstrip_nl (fst d) \<and> snd (snd (snd e)) = snd d
                           \<and> snd d \<in> set [''strict'', ''ellipsis'', ''loose'']) ds es"
    and "\<forall>(q, mt)\<in>set ds.
           mt \<noteq> ''ellipsis''
           \<and> (mt = ''strict'' \<longrightarrow> rstrip_nl q = q)
           \<and> (\<forall>line\<in>set (splitlines q).
                 \<not> startswith line ''GET '' \<and> CHR '':'' \<in> set line \<longrightarrow> contains line '': '')"
  shows "list_all2 (\<lambda>q e. (\<exists>h. unpack_headers q = Inr h)
                          \<and> compare rm (fst e) q (snd (snd (snd e))) = Inr True) (map fst ds) es
         \<and> map (\<lambda>e. (fst e, snd (snd (snd e)))) es = map (\<lambda>(q, mt). (rstrip_nl q, mt)) ds"
  using assms
proof (induction ds es rule: list_all2_induct)
  case Nil
  then show ?case by simp
next
  case (Cons d ds e es)
  obtain q mt where d: "d = (q, mt)" by (cases d) auto
  from Cons.prems d have hq: "mt \<noteq> ''ellipsis''" "mt = ''strict'' \<longrightarrow> rstrip_nl q = q"
    and lines: "\<forall>line\<in>set (splitlines q).
                 \<not> startswith line ''GET '' \<and> CHR '':'' \<in> set line \<longrightarrow> contains line '': ''"
    by auto
  from Cons.hyps(1) d have e: "fst e = rstrip_nl q" "snd (snd (snd e)) = mt"
    and mt: "mt \<in> set [''strict'', ''ellipsis'', ''loose'']"
    by auto
  have "\<exists>unpacked. unpack_loop [] (splitlines q) = Inr unpacked"
    using unpack_loop_total [OF lines, of "[]"] by auto
  then have u: "\<exists>h. unpack_headers q = Inr h" by (simp add: unpack_headers_def)
  have "mt = ''loose'' \<or> (mt = ''strict'' \<and> rstrip_nl q = q)" using hq mt by auto
  then have c: "compare rm (fst e) q (snd (snd (snd e))) = Inr True"
    unfolding e by (rule compare_declared)
  have rest: "list_all2 (\<lambda>q e. (\<exists>h. unpack_headers q = Inr h)
                          \<and> compare rm (fst e) q (snd (snd (snd e))) = Inr True) (map fst ds) es
         \<and> map (\<lambda>e. (fst e, snd (snd (snd e)))) es = map (\<lambda>(q, mt). (rstrip_nl q, mt)) ds"
    using Cons.IH Cons.prems by simp
  show ?case using u c rest d e by simp
qed

text \<open>
  C1 (amended). Start from a connection with an empty expectation queue and let all
  declarations of a list succeed, where no declaration uses \<^verbatim>\<open>ellipsis\<close>, a text declared
  \<^verbatim>\<open>strict\<close> has no trailing newline, and every line of a declared text that does not
  start with \<^verbatim>\<open>GET \<close> and has a colon also has \<^verbatim>\<open>": "\<close>. Enter the scope without the status
  query and submit the declared texts in their order, each as UTF-8 with the terminator
  \<^verbatim>\<open>\n\n\<close>, receiving after each one. Then no send and no receive raises, the reply to the
  k-th text is the frame of the rows precomputed for the k-th declaration (with the header
  row when the text has \<^verbatim>\<open>ColumnHeaders: on\<close>), and the queue is empty at the end.
\<close>

theorem declared_order_never_raises:
  assumes "expected_queries self = []"
    and "declare_all rm self ds = Inr self1"
    and "\<forall>(q, mt)\<in>set ds.
           mt \<noteq> ''ellipsis''
           \<and> (mt = ''strict'' \<longrightarrow> rstrip_nl q = q)
           \<and> (\<forall>line\<in>set (splitlines q).
                 \<not> startswith line ''GET '' \<and> CHR '':'' \<in> set line \<longrightarrow> contains line '': '')"
  shows "enter rm (call self1 False) = Inr (call self1 False)
         \<and> (\<exists>self2.
               exchange_all rm n (call self1 False) (map fst ds)
                 = (Inr (map2 (\<lambda>q e. utf8_encode
                                        (read_upto n (expected_frame (prepend_site self) q e)))
                           (map fst ds) (expected_queries self1)), self2)
               \<and> expected_queries self2 = [])
         \<and> map (\<lambda>e. (fst e, snd (snd (snd e)))) (expected_queries self1)
             = map (\<lambda>(q, mt). (rstrip_nl q, mt)) ds
         \<and> session rm n self ds
             = Inr (map2 (\<lambda>q e. utf8_encode
                                   (read_upto n (expected_frame (prepend_site self) q e)))
                      (map fst ds) (expected_queries self1))"
proof -
  from declare_all_queue [OF assms(2)] assms(1)
  have r: "list_all2 (\<lambda>d e. fst e = rstrip_nl (fst d) \<and> snd (snd (snd e)) = snd d
                           \<and> snd d \<in> set [''strict'', ''ellipsis'', ''loose''])
             ds (expected_queries self1)"
    and p: "prepend_site self1 = prepend_site self"
    by auto
  note dm = declared_texts_match [OF r assms(3), of rm]
  have "expect_status_query (call self1 False) \<noteq> None"
    "expected_queries (call self1 False) = expected_queries self1"
    by (simp_all add: call_def)
  from exchange_all_queue [OF conjunct1 [OF dm] this, of n] obtain self2 where
    "exchange_all rm n (call self1 False) (map fst ds)
       = (Inr (map2 (\<lambda>q e. utf8_encode
                  (read_upto n (expected_frame (prepend_site (call self1 False)) q e)))
                 (map fst ds) (expected_queries self1)), self2)"
    "expected_queries self2 = []"
    by blast
  moreover have "prepend_site (call self1 False) = prepend_site self"
    using p by (simp add: call_def)
  ultimately have x: "exchange_all rm n (call self1 False) (map fst ds)
       = (Inr (map2 (\<lambda>q e. utf8_encode
                  (read_upto n (expected_frame (prepend_site self) q e)))
                 (map fst ds) (expected_queries self1)), self2)"
    and y: "expected_queries self2 = []"
    by simp_all
  have "session rm n self ds
             = Inr (map2 (\<lambda>q e. utf8_encode
                                   (read_upto n (expected_frame (prepend_site self) q e)))
                      (map fst ds) (expected_queries self1))"
    by (simp add: session_def assms(2) enter_no_status_query x)
  then show ?thesis using x y conjunct2 [OF dm] enter_no_status_query by blast
qed

theorem declared_order_never_raises_witness:
  "expected_queries (init ''2020.07.03'' 1593762478 False) = []
   \<and> (\<exists>self1. declare_all (\<lambda>p s. Inr False) (init ''2020.07.03'' 1593762478 False)
                  [(''GET hosts'' @ [NL] @ ''Columns: name'', ''loose''),
                   (''GET services'' @ [NL] @ ''Columns: description'' @ [NL]
                    @ ''ColumnHeaders: on'', ''strict'')] = Inr self1)
   \<and> session (\<lambda>p s. Inr False) (- 1) (init ''2020.07.03'' 1593762478 False)
        [(''GET hosts'' @ [NL] @ ''Columns: name'', ''loose''),
         (''GET services'' @ [NL] @ ''Columns: description'' @ [NL] @ ''ColumnHeaders: on'',
          ''strict'')]
      = Inr [utf8_encode (make_livestatus_response [[PStr ''heute''], [PStr ''example.com'']]),
             utf8_encode (make_livestatus_response
                            [[PStr ''description''], [PStr ''Memory''], [PStr ''CPU load''],
                             [PStr ''CPU load'']])]"
proof -
  let ?c = "init ''2020.07.03'' 1593762478 False"
  let ?rm = "\<lambda>p s. Inr False :: error + bool"
  define q1 where "q1 = ''GET hosts'' @ [NL] @ ''Columns: name''"
  define q2 where
    "q2 = ''GET services'' @ [NL] @ ''Columns: description'' @ [NL] @ ''ColumnHeaders: on''"
  let ?ds = "[(q1, ''loose''), (q2, ''strict'')]"
  let ?e1 = "(q1, [''name''], [[PStr ''heute''], [PStr ''example.com'']], ''loose'')"
  let ?e2 = "(q2, [''description''], [[PStr ''Memory''], [PStr ''CPU load''], [PStr ''CPU load'']],
              ''strict'')"
  have h1: "expected_queries ?c = []" by (simp add: init_def)
  have v: "map_sum id expected_queries (declare_all ?rm ?c ?ds) = Inr [?e1, ?e2]"
    unfolding q1_def q2_def by code_simp
  then obtain self1 where h2: "declare_all ?rm ?c ?ds = Inr self1"
    and q: "expected_queries self1 = [?e1, ?e2]"
    by (cases "declare_all ?rm ?c ?ds") auto
  have h3: "\<forall>(q, mt)\<in>set ?ds.
           mt \<noteq> ''ellipsis''
           \<and> (mt = ''strict'' \<longrightarrow> rstrip_nl q = q)
           \<and> (\<forall>line\<in>set (splitlines q).
                 \<not> startswith line ''GET '' \<and> CHR '':'' \<in> set line \<longrightarrow> contains line '': '')"
    unfolding q1_def q2_def by code_simp
  have f1: "expected_frame (prepend_site ?c) q1 ?e1
              = make_livestatus_response [[PStr ''heute''], [PStr ''example.com'']]"
    unfolding q1_def by code_simp
  have f2: "expected_frame (prepend_site ?c) q2 ?e2
              = make_livestatus_response
                  [[PStr ''description''], [PStr ''Memory''], [PStr ''CPU load''],
                   [PStr ''CPU load'']]"
    unfolding q2_def by code_simp
  have "session ?rm (- 1) ?c ?ds
          = Inr (map2 (\<lambda>q e. utf8_encode (read_upto (- 1) (expected_frame (prepend_site ?c) q e)))
                   (map fst ?ds) (expected_queries self1))"
    using declared_order_never_raises [OF h1 h2 h3, of "- 1"] by blast
  then have "session ?rm (- 1) ?c ?ds
          = Inr [utf8_encode (make_livestatus_response [[PStr ''heute''], [PStr ''example.com'']]),
             utf8_encode (make_livestatus_response
                            [[PStr ''description''], [PStr ''Memory''], [PStr ''CPU load''],
                             [PStr ''CPU load'']])]"
    unfolding q by (simp add: read_upto_def f1 f2)
  then show ?thesis using h1 h2 unfolding q1_def q2_def by blast
qed

theorem declared_text_trailing_newline_counterexample:
  "session (\<lambda>p s. Inr False) (- 1) (init ''2020.07.03'' 1593762478 False)
     [(''GET foo'' @ [NL], ''strict'')]
   = Inl (RuntimeError (''Expected query (strict):'' @ [NL] @ '' * '' @ repr_str ''GET foo''
                        @ [NL] @ ''Got query:'' @ [NL] @ '' * '' @ repr_str (''GET foo'' @ [NL])))
   \<and> map_sum id expected_queries
        (declare_all (\<lambda>p s. Inr False) (init ''2020.07.03'' 1593762478 False)
           [(''GET foo'' @ [NL], ''strict'')])
       = Inr [(''GET foo'', [], [], ''strict'')]
   \<and> fst (socket_send (\<lambda>p s. Inr False)
             ((init ''2020.07.03'' 1593762478 False)
                \<lparr>expected_queries := [(''GET foo'', [], [], ''strict'')],
                 expect_status_query := Some False\<rparr>)
             (utf8_encode (''GET foo'' @ [NL])))
       = Inl (RuntimeError (''Expected query (strict):'' @ [NL] @ '' * '' @ repr_str ''GET foo''
                        @ [NL] @ ''Got query:'' @ [NL] @ '' * '' @ repr_str (''GET foo'' @ [NL])))"
  by code_simp

end
